theory Spec2Isabelle
  imports Main
begin

section \<open>JavaScript values and strings\<close>

text \<open>
  A JavaScript string is modelled as a \<^typ>\<open>string\<close>: every \<^typ>\<open>char\<close> stands for one
  UTF-16 code unit in the range U+0000..U+00FF, so \<^const>\<open>length\<close> is the \<^verbatim>\<open>.length\<close> of the
  source. Property values (lead attributes, the fields of a message descriptor, the
  arguments of the phone helpers) range over \<^verbatim>\<open>undefined\<close>, \<^verbatim>\<open>null\<close>, booleans and strings;
  numbers and objects as property values are outside the model.
\<close>

datatype jsval = JUndefined | JNull | JBool bool | JStr string

text \<open>Truthiness, as \<^verbatim>\<open>||\<close>, \<^verbatim>\<open>&&\<close> and \<^verbatim>\<open>if\<close> test it.\<close>

fun truthy :: "jsval \<Rightarrow> bool" where
  "truthy JUndefined = False"
| "truthy JNull = False"
| "truthy (JBool b) = b"
| "truthy (JStr s) = (s \<noteq> [])"

text \<open>\<^verbatim>\<open>a || b\<close>: the left operand when it is truthy, the right one otherwise.\<close>

definition js_or :: "jsval \<Rightarrow> jsval \<Rightarrow> jsval" where
  "js_or a b = (if truthy a then a else b)"

text \<open>\<^verbatim>\<open>String(v)\<close>, and the conversion \<^verbatim>\<open>String.prototype.replace\<close> applies to what its callback returns.\<close>

fun js_String :: "jsval \<Rightarrow> string" where
  "js_String JUndefined = ''undefined''"
| "js_String JNull = ''null''"
| "js_String (JBool b) = (if b then ''true'' else ''false'')"
| "js_String (JStr s) = s"

subsection \<open>Character classes of the regular expressions\<close>

text \<open>\<^verbatim>\<open>\d\<close>: the ASCII digits.\<close>

definition is_digit :: "char \<Rightarrow> bool" where
  "is_digit c = (let n = (of_char c :: nat) in 48 \<le> n \<and> n \<le> 57)"

text \<open>\<^verbatim>\<open>\w\<close> (no \<^verbatim>\<open>i\<close> or \<^verbatim>\<open>u\<close> flag): ASCII letters, digits and the underscore.\<close>

definition is_word :: "char \<Rightarrow> bool" where
  "is_word c = (let n = (of_char c :: nat) in
     (48 \<le> n \<and> n \<le> 57) \<or> (65 \<le> n \<and> n \<le> 90) \<or> (97 \<le> n \<and> n \<le> 122) \<or> n = 95)"

text \<open>
  \<^verbatim>\<open>\s\<close> and the characters \<^verbatim>\<open>trim()\<close> removes (white space and line terminators):
  TAB, LF, VT, FF, CR, SPACE and, in the range of the model, NO-BREAK SPACE (U+00A0).
\<close>

definition is_space :: "char \<Rightarrow> bool" where
  "is_space c = (let n = (of_char c :: nat) in (9 \<le> n \<and> n \<le> 13) \<or> n = 32 \<or> n = 160)"

text \<open>\<^verbatim>\<open>s.replace(/\D/g, '')\<close>: every character that is not a digit is removed.\<close>

definition strip_non_digits :: "string \<Rightarrow> string" where
  "strip_non_digits s = filter is_digit s"

text \<open>\<^verbatim>\<open>s.startsWith(p)\<close>.\<close>

definition startsWith :: "string \<Rightarrow> string \<Rightarrow> bool" where
  "startsWith s p = (take (length p) s = p)"

text \<open>\<^verbatim>\<open>/^\d{lo,hi}$/.test(s)\<close>; without the \<^verbatim>\<open>m\<close> flag \<^verbatim>\<open>$\<close> is the end of the input.\<close>

definition re_digits :: "nat \<Rightarrow> nat \<Rightarrow> string \<Rightarrow> bool" where
  "re_digits lo hi s = (list_all is_digit s \<and> lo \<le> length s \<and> length s \<le> hi)"

text \<open>\<^verbatim>\<open>s.trim()\<close>.\<close>

definition trim :: "string \<Rightarrow> string" where
  "trim s = rev (dropWhile is_space (rev (dropWhile is_space s)))"

section \<open>Phone helpers\<close>

text \<open>
  \<^verbatim>\<open>parsePhoneNumberFromString\<close> belongs to the library libphonenumber-js and is a parameter
  of the model: applied to the digit string and the default country it yields
  \<open>Some n\<close> when the library returns a number object whose \<^verbatim>\<open>isValid()\<close> holds, \<open>n\<close> being
  its \<^verbatim>\<open>.number\<close>, and \<open>None\<close> when it returns \<^verbatim>\<open>undefined\<close> or an invalid number.
\<close>

type_synonym phone_parser = "string \<Rightarrow> string \<Rightarrow> string option"

text \<open>
  \<^verbatim>\<open>toE164(num, defaultCountry = 'MX')\<close>, defined twice in the source with the same body
  (the HTTP server and the scheduler). The second argument is \<open>None\<close> when the caller
  leaves it out, as every call in the source does.
\<close>

definition toE164 :: "phone_parser \<Rightarrow> jsval \<Rightarrow> string option \<Rightarrow> string" where
  "toE164 parsePhone num defaultCountry =
     (let country = (case defaultCountry of None \<Rightarrow> ''MX'' | Some c \<Rightarrow> c);
          raw = strip_non_digits (js_String (js_or num (JStr '''')))
      in if raw = [] then ''''
         else case parsePhone raw country of
           Some number \<Rightarrow> number
         | None \<Rightarrow>
             if re_digits 10 10 raw then ''+52'' @ raw
             else if re_digits 11 15 raw \<and> startsWith raw ''521'' then ''+'' @ raw
             else if re_digits 11 15 raw \<and> startsWith raw ''52'' then ''+'' @ raw
             else ''+'' @ raw)"

text \<open>\<^verbatim>\<open>normalizePhoneForWA(phone)\<close>; \<^verbatim>\<open>num.slice(2)\<close> is \<open>drop 2 num\<close>.\<close>

definition normalizePhoneForWA :: "jsval \<Rightarrow> string" where
  "normalizePhoneForWA phone =
     (let num = strip_non_digits (js_String (js_or phone (JStr '''')))
      in if length num = 12 \<and> startsWith num ''52'' \<and> \<not> startsWith num ''521''
         then ''521'' @ drop 2 num
         else if length num = 10 then ''521'' @ num
         else num)"

text \<open>\<^verbatim>\<open>e164ToJid(e164)\<close>.\<close>

definition e164ToJid :: "jsval \<Rightarrow> string" where
  "e164ToJid e164 =
     (let digits = strip_non_digits (js_String (js_or e164 (JStr '''')))
      in normalizePhoneForWA (JStr digits) @ ''@s.whatsapp.net'')"

section \<open>Template renderer\<close>

text \<open>
  \<^verbatim>\<open>s.split(/\s+/)\<close>: the pieces of \<open>s\<close> between maximal runs of white space. The first
  argument is the piece being read. An empty input gives one empty piece, a
  leading or trailing run gives an empty first or last piece.
\<close>

function split_ws :: "string \<Rightarrow> string \<Rightarrow> string list" where
  "split_ws cur [] = [cur]"
| "split_ws cur (c # cs) =
     (if is_space c then cur # split_ws [] (dropWhile is_space cs)
      else split_ws (cur @ [c]) cs)"
  by pat_completeness auto
termination
  by (relation "measure (\<lambda>(cur, s). length s)")
     (auto simp: le_imp_less_Suc length_dropWhile_le)

text \<open>
  \<^verbatim>\<open>firstName(n = '')\<close>: \<^verbatim>\<open>String(n).trim().split(/\s+/)[0] || ''\<close>. The default applies
  when the argument is \<^verbatim>\<open>undefined\<close>.
\<close>

definition firstName :: "jsval \<Rightarrow> string" where
  "firstName n =
     (let n' = (if n = JUndefined then JStr '''' else n)
      in case split_ws [] (trim (js_String n')) of
           [] \<Rightarrow> ''''
         | p # _ \<Rightarrow> (if p = [] then '''' else p))"

text \<open>
  A lead is a plain object that holds the data of a contact: \<open>l field\<close> is the value
  of its own property \<open>field\<close>, and \<^verbatim>\<open>undefined\<close> where the lead has no such property (the
  document store holds no property of value \<^verbatim>\<open>undefined\<close>). An argument of type
  \<open>lead option\<close> is \<open>None\<close> when the caller passes \<^verbatim>\<open>null\<close> or \<^verbatim>\<open>undefined\<close>.
\<close>

type_synonym lead = "string \<Rightarrow> jsval"

text \<open>
  A read \<^verbatim>\<open>lead[field]\<close> of a name the lead does not hold goes on to \<^verbatim>\<open>Object.prototype\<close>.
  These are the names found there, each with the text \<^verbatim>\<open>String\<close> gives for what is read:
  the source text of a built-in function and, for \<^verbatim>\<open>__proto__\<close>, the text of the prototype
  object. The names the dispatcher reads with a dot (\<^verbatim>\<open>telefono\<close>, \<^verbatim>\<open>phone\<close>, \<^verbatim>\<open>whatsapp\<close>,
  \<^verbatim>\<open>nombre\<close>) are not among them, so that those reads are \<open>l field\<close>.
\<close>

definition object_prototype :: "(string \<times> string) list" where
  "object_prototype =
     [(''constructor'', ''function Object() { [native code] }''),
      (''__defineGetter__'', ''function __defineGetter__() { [native code] }''),
      (''__defineSetter__'', ''function __defineSetter__() { [native code] }''),
      (''hasOwnProperty'', ''function hasOwnProperty() { [native code] }''),
      (''__lookupGetter__'', ''function __lookupGetter__() { [native code] }''),
      (''__lookupSetter__'', ''function __lookupSetter__() { [native code] }''),
      (''isPrototypeOf'', ''function isPrototypeOf() { [native code] }''),
      (''propertyIsEnumerable'', ''function propertyIsEnumerable() { [native code] }''),
      (''toString'', ''function toString() { [native code] }''),
      (''valueOf'', ''function valueOf() { [native code] }''),
      (''__proto__'', ''[object Object]''),
      (''toLocaleString'', ''function toLocaleString() { [native code] }'')]"

text \<open>
  What a read of a lead gives: a value of its data, or a function or object of the
  language, known by its text. The latter is truthy.
\<close>

datatype js_read = Data jsval | Native string

text \<open>\<^verbatim>\<open>leadData?.[field]\<close>.\<close>

definition lead_get :: "lead option \<Rightarrow> string \<Rightarrow> js_read" where
  "lead_get leadData field =
     (case leadData of
        None \<Rightarrow> Data JUndefined
      | Some l \<Rightarrow>
          if l field \<noteq> JUndefined then Data (l field)
          else case map_of object_prototype field of
                 Some text \<Rightarrow> Native text
               | None \<Rightarrow> Data JUndefined)"

text \<open>
  The callback of \<^verbatim>\<open>replacePlaceholders\<close>; what it returns is converted to a string by
  \<^verbatim>\<open>replace\<close> and inserted as it is. In \<^verbatim>\<open>leadData?.[field] || ''\<close> a function or object is
  truthy and is the value.
\<close>

definition placeholder_callback :: "lead option \<Rightarrow> string \<Rightarrow> string" where
  "placeholder_callback leadData field =
     (case lead_get leadData field of
        Data v \<Rightarrow>
          (let value = js_or v (JStr '''')
           in if field = ''nombre'' then firstName value else js_String value)
      | Native text \<Rightarrow>
          if field = ''nombre'' then firstName (JStr text) else text)"

text \<open>
  A match of \<^verbatim>\<open>/\{\{(\w+)\}\}/\<close> at the head of a string: the captured field and the rest
  of the string after the match. \<^verbatim>\<open>\w+\<close> is greedy, and a shorter run of word characters
  is followed by a word character, never by a brace, so the match exists exactly when
  the longest run is not empty and is followed by the two closing braces.
\<close>

definition match_placeholder :: "string \<Rightarrow> (string \<times> string) option" where
  "match_placeholder s =
     (if startsWith s ''{{''
      then let t = drop 2 s; field = takeWhile is_word t; r = dropWhile is_word t
           in if field \<noteq> [] \<and> startsWith r ''}}'' then Some (field, drop 2 r) else None
      else None)"

lemma match_placeholder_shorter:
  "match_placeholder s = Some (field, rest) \<Longrightarrow> length rest < length s"
proof -
  assume m: "match_placeholder s = Some (field, rest)"
  then have "rest = drop 2 (dropWhile is_word (drop 2 s))" and "startsWith s ''{{''"
    by (auto simp: match_placeholder_def Let_def split: if_splits)
  moreover have "length (dropWhile is_word (drop 2 s)) \<le> length (drop 2 s)"
    by (rule length_dropWhile_le)
  moreover from \<open>startsWith s ''{{''\<close> have "2 \<le> length s"
    by (cases s; cases "tl s") (auto simp: startsWith_def)
  ultimately show ?thesis by simp
qed

text \<open>
  \<^verbatim>\<open>str.replace(/\{\{(\w+)\}\}/g, f)\<close>: the string is scanned from the left; where the
  pattern matches, the match is replaced by the result of the callback and the scan
  goes on after the match, elsewhere the character is kept.
\<close>

function replace_placeholders :: "(string \<Rightarrow> string) \<Rightarrow> string \<Rightarrow> string" where
  "replace_placeholders f [] = []"
| "replace_placeholders f (c # cs) =
     (case match_placeholder (c # cs) of
        Some (field, rest) \<Rightarrow> f field @ replace_placeholders f rest
      | None \<Rightarrow> c # replace_placeholders f cs)"
  by pat_completeness auto
termination
  by (relation "measure (\<lambda>(f, s). length s)")
     (auto dest: match_placeholder_shorter)

text \<open>\<^verbatim>\<open>replacePlaceholders(template, leadData)\<close>.\<close>

definition replacePlaceholders :: "jsval \<Rightarrow> lead option \<Rightarrow> string" where
  "replacePlaceholders template leadData =
     (let str = js_String (js_or template (JStr ''''))
      in replace_placeholders (placeholder_callback leadData) str)"

section \<open>Message dispatcher\<close>

subsection \<open>String operations of the dispatcher\<close>

text \<open>
  \<^verbatim>\<open>toLowerCase()\<close> on the code units of the model: the ASCII capitals and the capitals
  of U+00C0..U+00DE (all of that range but the multiplication sign U+00D7) move to
  the letter 32 places later.
\<close>

definition upper_chars :: string where
  "upper_chars = ''ABCDEFGHIJKLMNOPQRSTUVWXYZ'' @
      [CHR 0xC0, CHR 0xC1, CHR 0xC2, CHR 0xC3, CHR 0xC4, CHR 0xC5, CHR 0xC6, CHR 0xC7,
       CHR 0xC8, CHR 0xC9, CHR 0xCA, CHR 0xCB, CHR 0xCC, CHR 0xCD, CHR 0xCE, CHR 0xCF,
       CHR 0xD0, CHR 0xD1, CHR 0xD2, CHR 0xD3, CHR 0xD4, CHR 0xD5, CHR 0xD6, CHR 0xD8,
       CHR 0xD9, CHR 0xDA, CHR 0xDB, CHR 0xDC, CHR 0xDD, CHR 0xDE]"

definition lower_chars :: string where
  "lower_chars = ''abcdefghijklmnopqrstuvwxyz'' @
      [CHR 0xE0, CHR 0xE1, CHR 0xE2, CHR 0xE3, CHR 0xE4, CHR 0xE5, CHR 0xE6, CHR 0xE7,
       CHR 0xE8, CHR 0xE9, CHR 0xEA, CHR 0xEB, CHR 0xEC, CHR 0xED, CHR 0xEE, CHR 0xEF,
       CHR 0xF0, CHR 0xF1, CHR 0xF2, CHR 0xF3, CHR 0xF4, CHR 0xF5, CHR 0xF6, CHR 0xF8,
       CHR 0xF9, CHR 0xFA, CHR 0xFB, CHR 0xFC, CHR 0xFD, CHR 0xFE]"

definition to_lower :: "char \<Rightarrow> char" where
  "to_lower c = (case map_of (zip upper_chars lower_chars) c of Some l \<Rightarrow> l | None \<Rightarrow> c)"

definition toLowerCase :: "string \<Rightarrow> string" where
  "toLowerCase s = map to_lower s"

text \<open>
  \<^verbatim>\<open>encodeURIComponent(s)\<close>: letters, digits and \<^verbatim>\<open>- _ . ! ~ * ' ( )\<close> are kept; every other
  code unit is written as the bytes of its UTF-8 encoding, each byte as \<^verbatim>\<open>%XX\<close> with
  capital hexadecimal digits. A code unit below U+0080 is one byte, one of
  U+0080..U+00FF two bytes. (It throws for a lone surrogate only, which is outside the
  range of the model.)
\<close>

definition hex_digit :: "nat \<Rightarrow> char" where
  "hex_digit n = ''0123456789ABCDEF'' ! (n mod 16)"

definition percent_byte :: "nat \<Rightarrow> string" where
  "percent_byte b = [CHR ''%'', hex_digit (b div 16), hex_digit (b mod 16)]"

definition uri_unreserved :: "char \<Rightarrow> bool" where
  "uri_unreserved c = (let n = (of_char c :: nat) in
     (48 \<le> n \<and> n \<le> 57) \<or> (65 \<le> n \<and> n \<le> 90) \<or> (97 \<le> n \<and> n \<le> 122) \<or>
     c \<in> set ''-_.!~*()'' \<or> n = 39)"

definition encode_char :: "char \<Rightarrow> string" where
  "encode_char c = (let n = (of_char c :: nat) in
     if uri_unreserved c then [c]
     else if n < 128 then percent_byte n
     else percent_byte (192 + n div 64) @ percent_byte (128 + n mod 64))"

definition encodeURIComponent :: "string \<Rightarrow> string" where
  "encodeURIComponent s = concat (map encode_char s)"

text \<open>
  \<^verbatim>\<open>s.replace(pattern, replacement)\<close> with a string pattern: the first occurrence of the
  pattern, if there is one, is replaced. The replacement is inserted as it is: the
  two replacements of the dispatcher (digits, and the result of
  \<^verbatim>\<open>encodeURIComponent\<close>) hold no \<^verbatim>\<open>$\<close>, the only character \<^verbatim>\<open>replace\<close> treats specially.
\<close>

fun replace_first :: "string \<Rightarrow> string \<Rightarrow> string \<Rightarrow> string" where
  "replace_first pat rep [] = (if pat = [] then rep else [])"
| "replace_first pat rep (c # cs) =
     (if startsWith (c # cs) pat then rep @ drop (length pat) (c # cs)
      else c # replace_first pat rep cs)"

text \<open>\<^verbatim>\<open>s.replace(/\r?\n/g, ' ')\<close>.\<close>

fun replace_newlines :: "string \<Rightarrow> string" where
  "replace_newlines [] = []"
| "replace_newlines [c] = (if c = CHR 0x0A then '' '' else [c])"
| "replace_newlines (c # d # cs) =
     (if c = CHR 0x0D \<and> d = CHR 0x0A then CHR '' '' # replace_newlines cs
      else if c = CHR 0x0A then CHR '' '' # replace_newlines (d # cs)
      else c # replace_newlines (d # cs))"

subsection \<open>Collaborators and effects\<close>

text \<open>
  An exception: a \<^verbatim>\<open>TypeError\<close> raised by the language (a property read on \<^verbatim>\<open>null\<close> or
  \<^verbatim>\<open>undefined\<close>, a call of something that is not a function), or whatever a
  collaborator throws or rejects with.
\<close>

datatype js_error = TypeError | Thrown string

text \<open>
  The payloads handed to \<^verbatim>\<open>sock.sendMessage\<close>: \<^verbatim>\<open>{ text, linkPreview }\<close>,
  \<^verbatim>\<open>{ audio: { url }, ptt }\<close>, \<^verbatim>\<open>{ image: { url } }\<close> and \<^verbatim>\<open>{ video: { url } }\<close>.
\<close>

datatype payload =
    TextPayload string bool
  | AudioPayload string bool
  | ImagePayload string
  | VideoPayload string

text \<open>
  What a call does to the outside: a call of \<^verbatim>\<open>sock.sendMessage(jid, payload)\<close>, or one of
  the four console lines of \<^verbatim>\<open>enviarMensaje\<close>.
\<close>

datatype effect =
    SendMessage string payload
  | WarnNoSocket
  | WarnNoPhone
  | WarnUnknownType jsval
  | ErrorSending js_error

text \<open>
  The outcome of a block: the effects it performed, in order, and the exception that
  ended it (\<open>None\<close> when it ran to its end). For an \<^verbatim>\<open>async\<close> function \<open>None\<close> is a
  promise that resolves and \<open>Some e\<close> one that rejects with \<open>e\<close>.
\<close>

type_synonym outcome = "effect list \<times> js_error option"

text \<open>
  A socket is its \<^verbatim>\<open>sendMessage\<close>: \<open>None\<close> when the awaited call resolves, \<open>Some e\<close> when
  it throws or rejects (every awaited call is taken to settle).
\<close>

type_synonym sock = "string \<Rightarrow> payload \<Rightarrow> js_error option"

text \<open>
  The collaborators of the dispatcher: \<^verbatim>\<open>getWhatsAppSock()\<close> throws (\<open>Inl e\<close>), returns a
  falsy value (\<open>Inr None\<close>) or returns a socket; \<open>parsePhone\<close> is the phone library.
\<close>

record env =
  getWhatsAppSock :: "js_error + sock option"
  parsePhone :: phone_parser

text \<open>A message descriptor, read through \<^verbatim>\<open>mensaje?.type\<close> and \<^verbatim>\<open>mensaje?.contenido\<close>.\<close>

record mensaje =
  type :: jsval
  contenido :: jsval

definition mensaje_type :: "mensaje option \<Rightarrow> jsval" where
  "mensaje_type m = (case m of None \<Rightarrow> JUndefined | Some d \<Rightarrow> type d)"

definition mensaje_contenido :: "mensaje option \<Rightarrow> jsval" where
  "mensaje_contenido m = (case m of None \<Rightarrow> JUndefined | Some d \<Rightarrow> contenido d)"

text \<open>\<^verbatim>\<open>if (x) { await sock.sendMessage(jid, payload); }\<close> for a string \<open>x\<close>.\<close>

definition send_if :: "sock \<Rightarrow> string \<Rightarrow> string \<Rightarrow> payload \<Rightarrow> outcome" where
  "send_if sendMessage x jid p =
     (if x \<noteq> [] then ([SendMessage jid p], sendMessage jid p) else ([], None))"

text \<open>The text the \<^verbatim>\<open>formulario\<close> case builds.\<close>

definition formulario_text :: "string \<Rightarrow> lead \<Rightarrow> jsval \<Rightarrow> string" where
  "formulario_text e164 l contenido' =
     (let raw = js_String (js_or contenido' (JStr ''''))
      in trim (replace_newlines
           (replace_first ''{{nombre}}''
              (encodeURIComponent (js_String (js_or (l ''nombre'') (JStr ''''))))
              (replace_first ''{{telefono}}'' (strip_non_digits e164) raw))))"

text \<open>The body of the \<^verbatim>\<open>try\<close> block of \<^verbatim>\<open>enviarMensaje\<close>.\<close>

definition enviarMensaje_try :: "env \<Rightarrow> lead option \<Rightarrow> mensaje option \<Rightarrow> outcome" where
  "enviarMensaje_try e lead m =
     (case getWhatsAppSock e of
        Inl err \<Rightarrow> ([], Some err)
      | Inr None \<Rightarrow> ([WarnNoSocket], None)
      | Inr (Some sendMessage) \<Rightarrow>
          (case lead of
             None \<Rightarrow> ([], Some TypeError)
           | Some l \<Rightarrow>
               let e164 = toE164 (parsePhone e)
                            (js_or (js_or (l ''telefono'') (l ''phone'')) (l ''whatsapp'')) None
               in if e164 = [] then ([WarnNoPhone], None)
                  else
                    let jid = e164ToJid (JStr e164)
                    in (case js_or (mensaje_type m) (JStr ''texto'') of
                          JStr t \<Rightarrow>
                            let tipo = toLowerCase t;
                                contenido' = js_or (mensaje_contenido m) (JStr '''')
                            in if tipo = ''texto'' then
                                 (let text = trim (replacePlaceholders contenido' lead)
                                  in send_if sendMessage text jid (TextPayload text False))
                               else if tipo = ''formulario'' then
                                 (let text = formulario_text e164 l contenido'
                                  in send_if sendMessage text jid (TextPayload text False))
                               else if tipo = ''audio'' then
                                 (let audioUrl = trim (replacePlaceholders contenido' lead)
                                  in send_if sendMessage audioUrl jid (AudioPayload audioUrl True))
                               else if tipo = ''imagen'' then
                                 (let url = trim (replacePlaceholders contenido' lead)
                                  in send_if sendMessage url jid (ImagePayload url))
                               else if tipo = ''video'' then
                                 (let url = trim (replacePlaceholders contenido' lead)
                                  in send_if sendMessage url jid (VideoPayload url))
                               else ([WarnUnknownType (mensaje_type m)], None)
                        | _ \<Rightarrow> ([], Some TypeError))))"

text \<open>\<^verbatim>\<open>try { body } catch (err) { handler }\<close>.\<close>

definition try_catch :: "outcome \<Rightarrow> (js_error \<Rightarrow> outcome) \<Rightarrow> outcome" where
  "try_catch body handler =
     (case snd body of
        None \<Rightarrow> body
      | Some err \<Rightarrow> (fst body @ fst (handler err), snd (handler err)))"

text \<open>\<^verbatim>\<open>enviarMensaje(lead, mensaje)\<close>.\<close>

definition enviarMensaje :: "env \<Rightarrow> lead option \<Rightarrow> mensaje option \<Rightarrow> outcome" where
  "enviarMensaje e lead m =
     try_catch (enviarMensaje_try e lead m) (\<lambda>err. ([ErrorSending err], None))"

section \<open>Task lock and sequence processor\<close>

text \<open>The console lines of the scheduler.\<close>

datatype sched_log =
    LogLockSkip string
  | LogNoQueueFunction
  | LogProcessed int
  | LogQueueError js_error

text \<open>
  The state of the scheduler module: the map \<^verbatim>\<open>_taskLocks\<close> from task names to the
  \<^verbatim>\<open>Date.now()\<close> of their acquisition (milliseconds), the console, and the rest of the
  world, on which the locked actions work.
\<close>

record 'w sched_state =
  taskLocks :: "string \<rightharpoonup> int"
  console :: "sched_log list"
  world :: 'w

text \<open>
  An \<^verbatim>\<open>async\<close> function called with the state: it resolves to a value (\<open>Inr\<close>) or
  rejects (\<open>Inl\<close>), and leaves a state. It may change any part of the state.
\<close>

type_synonym ('w, 'a) action = "'w sched_state \<Rightarrow> (js_error + 'a) \<times> 'w sched_state"

text \<open>
  \<^verbatim>\<open>withTaskLock(taskName, timeoutMinutes = 5, fn)\<close>, called when \<^verbatim>\<open>Date.now()\<close> is \<open>now\<close>.
  \<^verbatim>\<open>existing && ...\<close> holds for an entry that is there and is not \<open>0\<close>. The test and the
  \<^verbatim>\<open>set\<close> are not separated by an \<^verbatim>\<open>await\<close>; \<open>fn\<close> runs on the state with the entry set, and
  \<^verbatim>\<open>finally\<close> deletes the entry from the state \<open>fn\<close> leaves, whatever \<open>fn\<close> did.
\<close>

definition withTaskLock ::
  "string \<Rightarrow> int option \<Rightarrow> ('w, 'a::zero) action \<Rightarrow> int \<Rightarrow> ('w, 'a) action" where
  "withTaskLock taskName timeoutMinutes fn now s =
     (let minutes = (case timeoutMinutes of None \<Rightarrow> 5 | Some t \<Rightarrow> t);
          held = (case taskLocks s taskName of
                    None \<Rightarrow> False
                  | Some existing \<Rightarrow> existing \<noteq> 0 \<and> now - existing < minutes * 60 * 1000)
      in if held then (Inr 0, s\<lparr>console := console s @ [LogLockSkip taskName]\<rparr>)
         else
           let s1 = s\<lparr>taskLocks := (taskLocks s)(taskName \<mapsto> now)\<rparr>;
               (r, s2) = fn s1
           in (r, s2\<lparr>taskLocks := (taskLocks s2)(taskName := None)\<rparr>))"

text \<open>
  The module \<^verbatim>\<open>queue.js\<close> as \<^verbatim>\<open>processSequences\<close> sees it: for each of the two names,
  the exported function (\<open>None\<close> when \<^verbatim>\<open>typeof\<close> is not \<^verbatim>\<open>'function'\<close>), called with
  \<^verbatim>\<open>{ batchSize }\<close>.
\<close>

record 'w queue_module =
  processDueSequenceJobs :: "(int \<Rightarrow> ('w, int) action) option"
  processQueue :: "(int \<Rightarrow> ('w, int) action) option"

text \<open>
  The argument of \<^verbatim>\<open>processSequences(options = {})\<close>: left out (or \<^verbatim>\<open>undefined\<close>), \<^verbatim>\<open>null\<close>,
  or an object with its \<^verbatim>\<open>batchSize\<close> (\<open>None\<close> when the object has none).
\<close>

datatype options_arg = OptionsUndefined | OptionsNull | Options "int option"

text \<open>The function passed to \<^verbatim>\<open>withTaskLock\<close> by \<^verbatim>\<open>processSequences\<close>.\<close>

definition process_batch :: "'w queue_module \<Rightarrow> int \<Rightarrow> ('w, int) action" where
  "process_batch Q batchSize s =
     (let fn = (case processDueSequenceJobs Q of
                  Some f \<Rightarrow> Some f
                | None \<Rightarrow> processQueue Q)
      in case fn of
           None \<Rightarrow> (Inr 0, s\<lparr>console := console s @ [LogNoQueueFunction]\<rparr>)
         | Some f \<Rightarrow>
             (case f batchSize s of
                (Inr processed, s') \<Rightarrow>
                  (Inr processed, s'\<lparr>console := console s' @ [LogProcessed processed]\<rparr>)
              | (Inl err, s') \<Rightarrow>
                  (Inr 0, s'\<lparr>console := console s' @ [LogQueueError err]\<rparr>)))"

text \<open>
  \<^verbatim>\<open>const { batchSize = 200 } = options;\<close> with the default \<^verbatim>\<open>options = {}\<close> of the
  parameter: destructuring \<^verbatim>\<open>null\<close> is a \<^verbatim>\<open>TypeError\<close>.
\<close>

fun destructure_batchSize :: "options_arg \<Rightarrow> js_error + int" where
  "destructure_batchSize OptionsNull = Inl TypeError"
| "destructure_batchSize OptionsUndefined = Inr 200"
| "destructure_batchSize (Options None) = Inr 200"
| "destructure_batchSize (Options (Some batchSize)) = Inr batchSize"

text \<open>\<^verbatim>\<open>processSequences(options = {})\<close>, called when \<^verbatim>\<open>Date.now()\<close> is \<open>now\<close>.\<close>

definition processSequences ::
  "'w queue_module \<Rightarrow> options_arg \<Rightarrow> int \<Rightarrow> ('w, int) action" where
  "processSequences Q options now s =
     (case destructure_batchSize options of
        Inl err \<Rightarrow> (Inl err, s)
      | Inr batchSize \<Rightarrow>
          withTaskLock ''processSequences'' (Some 5) (process_batch Q batchSize) now s)"

text \<open>
  The condition of the specification for a held lock: an entry for the name exists
  and its age is below the timeout, in milliseconds.
\<close>

definition lock_held :: "string \<Rightarrow> int \<Rightarrow> int \<Rightarrow> 'w sched_state \<Rightarrow> bool" where
  "lock_held name minutes now s =
     (case taskLocks s name of
        None \<Rightarrow> False
      | Some acquired \<Rightarrow> now - acquired < minutes * 60000)"

text \<open>The state in which a locked action starts, and the state after its release.\<close>

definition acquired_state :: "string \<Rightarrow> int \<Rightarrow> 'w sched_state \<Rightarrow> 'w sched_state" where
  "acquired_state name now s = s\<lparr>taskLocks := (taskLocks s)(name \<mapsto> now)\<rparr>"

definition released_state :: "string \<Rightarrow> 'w sched_state \<Rightarrow> 'w sched_state" where
  "released_state name s = s\<lparr>taskLocks := (taskLocks s)(name := None)\<rparr>"

section \<open>Notions of the specification\<close>

text \<open>
  The digit string of an input, in the words of the specification: the characters
  \<open>0\<close> to \<open>9\<close> of the input, in their order.
\<close>

definition digits_of :: "string \<Rightarrow> string" where
  "digits_of s = filter (\<lambda>c. c \<in> set ''0123456789'') s"

definition all_digits :: "string \<Rightarrow> bool" where
  "all_digits s = (digits_of s = s)"

subsection \<open>The dispatcher, as the specification describes it\<close>

text \<open>The calls of \<^verbatim>\<open>sock.sendMessage\<close> among the effects of a call: address and payload.\<close>

fun sends :: "effect list \<Rightarrow> (string \<times> payload) list" where
  "sends [] = []"
| "sends (SendMessage jid p # es) = (jid, p) # sends es"
| "sends (_ # es) = sends es"

text \<open>
  The channel handle, missing also when asking for it throws; the normalised phone
  of the lead, empty also when there is no lead; the channel address.
\<close>

definition channel_handle :: "env \<Rightarrow> sock option" where
  "channel_handle e = (case getWhatsAppSock e of Inr (Some sendMessage) \<Rightarrow> Some sendMessage | _ \<Rightarrow> None)"

definition lead_phone :: "env \<Rightarrow> lead option \<Rightarrow> string" where
  "lead_phone e lead =
     (case lead of
        None \<Rightarrow> ''''
      | Some l \<Rightarrow> toE164 (parsePhone e)
                   (js_or (js_or (l ''telefono'') (l ''phone'')) (l ''whatsapp'')) None)"

definition lead_jid :: "env \<Rightarrow> lead option \<Rightarrow> string" where
  "lead_jid e lead = e164ToJid (JStr (lead_phone e lead))"

text \<open>
  The kinds of message, under the names the source compares with. The kind of a
  descriptor: the default when the type is missing (or another falsy value), the
  kind whose name equals the type when case is ignored, and none for any other
  type.
\<close>

datatype msg_kind = Texto | Formulario | Audio | Imagen | Video

definition kind_names :: "(string \<times> msg_kind) list" where
  "kind_names = [(''texto'', Texto), (''formulario'', Formulario), (''audio'', Audio),
                 (''imagen'', Imagen), (''video'', Video)]"

definition same_ignoring_case :: "string \<Rightarrow> string \<Rightarrow> bool" where
  "same_ignoring_case a b = (toLowerCase a = toLowerCase b)"

definition message_kind :: "mensaje option \<Rightarrow> msg_kind option" where
  "message_kind m =
     (case mensaje_type m of
        JStr t \<Rightarrow>
          if t = [] then Some Texto
          else map_option snd (find (\<lambda>(name, k). same_ignoring_case t name) kind_names)
      | JBool True \<Rightarrow> None
      | _ \<Rightarrow> Some Texto)"

text \<open>
  The content of a message of each kind, ready to send: the template rendered
  against the lead and trimmed, or, for a form, the restricted substitution.
\<close>

definition message_template :: "mensaje option \<Rightarrow> jsval" where
  "message_template m = js_or (mensaje_contenido m) (JStr '''')"

definition rendered_content :: "msg_kind \<Rightarrow> env \<Rightarrow> lead \<Rightarrow> mensaje option \<Rightarrow> string" where
  "rendered_content k e l m =
     (case k of
        Formulario \<Rightarrow> formulario_text (lead_phone e (Some l)) l (message_template m)
      | _ \<Rightarrow> trim (replacePlaceholders (message_template m) (Some l)))"

fun payload_of :: "msg_kind \<Rightarrow> string \<Rightarrow> payload" where
  "payload_of Texto c = TextPayload c False"
| "payload_of Formulario c = TextPayload c False"
| "payload_of Audio c = AudioPayload c True"
| "payload_of Imagen c = ImagePayload c"
| "payload_of Video c = VideoPayload c"

text \<open>The content of a dispatch, empty when there is no lead or the type is not recognised.\<close>

definition dispatch_content :: "env \<Rightarrow> lead option \<Rightarrow> mensaje option \<Rightarrow> string" where
  "dispatch_content e lead m =
     (case (lead, message_kind m) of
        (Some l, Some k) \<Rightarrow> rendered_content k e l m
      | _ \<Rightarrow> '''')"

text \<open>An occurrence of a pattern in a string.\<close>

fun occurs :: "string \<Rightarrow> string \<Rightarrow> bool" where
  "occurs pat [] = (pat = [])"
| "occurs pat (c # cs) = (startsWith (c # cs) pat \<or> occurs pat cs)"

subsection \<open>The renderer, as the specification describes it\<close>







text \<open>
  The attribute of a lead as text, in the words of the specification: the empty
  string when the lead has no attribute of that name, the text of the attribute
  otherwise.
\<close>

definition attribute_text :: "lead option \<Rightarrow> string \<Rightarrow> string" where
  "attribute_text leadData name =
     (case leadData of
        None \<Rightarrow> ''''
      | Some l \<Rightarrow> if l name = JUndefined then '''' else js_String (l name))"

text \<open>
  The attribute as the renderer shows it: the empty string also for an attribute
  that is falsy (\<^verbatim>\<open>null\<close>, \<^verbatim>\<open>false\<close>, the empty string).
\<close>

definition shown_attribute :: "lead option \<Rightarrow> string \<Rightarrow> string" where
  "shown_attribute leadData name =
     (case leadData of
        None \<Rightarrow> ''''
      | Some l \<Rightarrow> if truthy (l name) then js_String (l name) else '''')"

text \<open>The names every object inherits, and the sequences that hold none of them.\<close>

definition inherited_name :: "string \<Rightarrow> bool" where
  "inherited_name w = (w \<in> set (map fst object_prototype))"


text \<open>
  The first token of a value: what lies between the white space at its start and
  the next white space.
\<close>

definition first_token :: "string \<Rightarrow> string" where
  "first_token s = takeWhile (\<lambda>c. \<not> is_space c) (dropWhile is_space s)"



section \<open>Example collaborators\<close>

text \<open>
  A connected channel whose sends resolve, with a phone library that accepts no
  number, and a lead.
\<close>

definition open_env :: env where
  "open_env = \<lparr>getWhatsAppSock = Inr (Some (\<lambda>jid p. None)), parsePhone = (\<lambda>raw country. None)\<rparr>"

definition juan :: lead where
  "juan field =
     (if field = ''telefono'' then JStr ''55 1234 5678''
      else if field = ''nombre'' then JStr ''Juan Perez''
      else JUndefined)"


text \<open>
  Concrete collaborators, for running the model: a scheduler state with no lock whose
  world counts the actions run, an action that resolves to \<open>7\<close>, one that rejects, and
  queue modules that export such actions.
\<close>

definition idle_state :: "nat sched_state" where
  "idle_state = \<lparr>taskLocks = Map.empty, console = [], world = 0\<rparr>"

definition count_call :: "(nat, int) action" where
  "count_call s = (Inr 7, s\<lparr>world := Suc (world s)\<rparr>)"

definition failing_call :: "(nat, int) action" where
  "failing_call s = (Inl (Thrown ''boom''), s\<lparr>world := Suc (world s)\<rparr>)"

definition failing_queue :: "nat queue_module" where
  "failing_queue =
     \<lparr>processDueSequenceJobs = None, processQueue = Some (\<lambda>batchSize. failing_call)\<rparr>"

text \<open>A channel whose sends reject, and three message descriptors.\<close>

definition closed_env :: env where
  "closed_env = \<lparr>getWhatsAppSock = Inr (Some (\<lambda>jid p. Some (Thrown ''Connection Closed''))),
     parsePhone = (\<lambda>raw country. None)\<rparr>"

definition saludo :: mensaje where
  "saludo = \<lparr>type = JStr ''TEXTO'', contenido = JStr ''  Hola {{nombre}}  ''\<rparr>"

definition text_message :: mensaje where
  "text_message = \<lparr>type = JStr ''text'', contenido = JStr ''hola''\<rparr>"

definition sticker :: mensaje where
  "sticker = \<lparr>type = JStr ''sticker'', contenido = JStr ''hola''\<rparr>"

text \<open>A form that holds each of its two placeholders twice.\<close>

definition formulario_msg :: mensaje where
  "formulario_msg = \<lparr>type = JStr ''Formulario'',
     contenido = JStr (''{{telefono}} / {{telefono}}'' @ [CHR 0x0A] @ ''{{nombre}} / {{nombre}} '')\<rparr>"

text \<open>
  A phone library at one input: dialled from Mexico, \<open>00\<close> is the international
  prefix and \<open>27\<close> the calling code of South Africa, and the ten digits \<open>0027812345\<close>
  are accepted as the number \<open>+27812345\<close>.
\<close>

definition dialled_abroad :: phone_parser where
  "dialled_abroad raw country =
     (if raw = ''0027812345'' \<and> country = ''MX'' then Some ''+27812345'' else None)"






section \<open>Facts about the string helpers\<close>

lemma char_of_digits:
  "(char_of (48::nat) :: char) = CHR ''0''" "(char_of (49::nat) :: char) = CHR ''1''"
  "(char_of (50::nat) :: char) = CHR ''2''" "(char_of (51::nat) :: char) = CHR ''3''"
  "(char_of (52::nat) :: char) = CHR ''4''" "(char_of (53::nat) :: char) = CHR ''5''"
  "(char_of (54::nat) :: char) = CHR ''6''" "(char_of (55::nat) :: char) = CHR ''7''"
  "(char_of (56::nat) :: char) = CHR ''8''" "(char_of (57::nat) :: char) = CHR ''9''"
  by code_simp+

lemma is_digit_iff: "is_digit c \<longleftrightarrow> c \<in> set ''0123456789''"
proof
  assume "is_digit c"
  then have r: "48 \<le> (of_char c :: nat)" "(of_char c :: nat) \<le> 57"
    by (simp_all add: is_digit_def Let_def)
  then have "(of_char c :: nat) \<in> {48, 49, 50, 51, 52, 53, 54, 55, 56, 57}"
    by (simp only: insert_iff empty_iff) arith
  moreover have "c = char_of (of_char c :: nat)" by simp
  ultimately have "c \<in> char_of ` {48::nat, 49, 50, 51, 52, 53, 54, 55, 56, 57}"
    by (metis imageI)
  then show "c \<in> set ''0123456789''"
    by (simp only: image_insert image_empty char_of_digits) simp
next
  assume "c \<in> set ''0123456789''"
  then show "is_digit c"
    by (auto simp: is_digit_def)
qed

lemma strip_non_digits_eq: "strip_non_digits s = digits_of s"
  unfolding strip_non_digits_def digits_of_def
  by (rule filter_cong) (simp_all only: is_digit_iff)

lemma js_String_or_empty: "js_String (js_or (JStr s) (JStr '''')) = s"
  by (cases "s = []") (simp_all add: js_or_def)

lemma startsWith_52: "startsWith s ''52'' \<longleftrightarrow> take 2 s = ''52''"
  by (simp add: startsWith_def numeral_2_eq_2)

lemma startsWith_521: "startsWith s ''521'' \<longleftrightarrow> take 3 s = ''521''"
  by (simp add: startsWith_def numeral_3_eq_3)

lemma digits_of_fixed: "digits_of s = s \<longleftrightarrow> (\<forall>c\<in>set s. c \<in> set ''0123456789'')"
  unfolding digits_of_def by (rule filter_id_conv)

lemma digits_of_digits [simp]: "digits_of (digits_of s) = digits_of s"
  by (simp add: digits_of_def)

lemma digits_of_drop: "digits_of s = s \<Longrightarrow> digits_of (drop k s) = drop k s"
  unfolding digits_of_fixed by (meson in_set_dropD)

lemma digits_of_521:
  "digits_of s = s \<Longrightarrow>
   digits_of (CHR ''5'' # CHR ''2'' # CHR ''1'' # s) = CHR ''5'' # CHR ''2'' # CHR ''1'' # s"
  by (simp add: digits_of_def)

section \<open>Phone normalizer\<close>

text \<open>The three cases of \<^const>\<open>normalizePhoneForWA\<close> on the digit string of a string argument.\<close>

lemma normalize_digits:
  "normalizePhoneForWA (JStr s) =
     (if length (digits_of s) = 12 \<and> take 2 (digits_of s) = ''52'' \<and>
         take 3 (digits_of s) \<noteq> ''521''
      then ''521'' @ drop 2 (digits_of s)
      else if length (digits_of s) = 10 then ''521'' @ digits_of s
      else digits_of s)"
  unfolding normalizePhoneForWA_def Let_def js_String_or_empty strip_non_digits_eq
    startsWith_52 startsWith_521 ..

text \<open>
  Claim C5. For every input string, \<^const>\<open>normalizePhoneForWA\<close> works on the digits \<open>d\<close> of
  the input: when \<open>d\<close> has exactly 12 digits and starts with the country code \<open>52\<close> but
  not with \<open>521\<close>, the result is \<open>d\<close> with the digit \<open>1\<close> inserted after the country code,
  13 digits; when \<open>d\<close> has exactly 10 digits, the result is \<open>521\<close> followed by \<open>d\<close>, 13
  digits; in every other case the result is \<open>d\<close> itself.
\<close>

theorem normalizePhoneForWA_cases:
  fixes s :: string
  defines "d \<equiv> digits_of s"
  shows "(length d = 12 \<and> take 2 d = ''52'' \<and> take 3 d \<noteq> ''521'' \<longrightarrow>
            normalizePhoneForWA (JStr s) = take 2 d @ ''1'' @ drop 2 d \<and>
            length (normalizePhoneForWA (JStr s)) = 13) \<and>
         (length d = 10 \<longrightarrow>
            normalizePhoneForWA (JStr s) = ''521'' @ d \<and>
            length (normalizePhoneForWA (JStr s)) = 13) \<and>
         (\<not> (length d = 12 \<and> take 2 d = ''52'' \<and> take 3 d \<noteq> ''521'') \<and> length d \<noteq> 10 \<longrightarrow>
            normalizePhoneForWA (JStr s) = d)"
proof (intro conjI impI)
  assume a: "length d = 12 \<and> take 2 d = ''52'' \<and> take 3 d \<noteq> ''521''"
  then have "normalizePhoneForWA (JStr s) = ''521'' @ drop 2 d"
    unfolding d_def by (simp only: normalize_digits if_True simp_thms)
  with a show "normalizePhoneForWA (JStr s) = take 2 d @ ''1'' @ drop 2 d"
    and "length (normalizePhoneForWA (JStr s)) = 13"
    by simp_all
next
  assume a: "length d = 10"
  then show "normalizePhoneForWA (JStr s) = ''521'' @ d"
    unfolding d_def by (simp add: normalize_digits)
  with a show "length (normalizePhoneForWA (JStr s)) = 13" by simp
next
  assume "\<not> (length d = 12 \<and> take 2 d = ''52'' \<and> take 3 d \<noteq> ''521'') \<and> length d \<noteq> 10"
  then show "normalizePhoneForWA (JStr s) = d"
    unfolding d_def by (simp only: normalize_digits simp_thms if_False)
qed

text \<open>
  The three cases at work: twelve digits with the bare country code, ten local
  digits, and a number of another country.
\<close>

theorem normalizePhoneForWA_cases_witness:
  "normalizePhoneForWA (JStr ''+52 (55) 1234-5678'') = ''5215512345678'' \<and>
   normalizePhoneForWA (JStr ''55 1234 5678'') = ''5215512345678'' \<and>
   normalizePhoneForWA (JStr ''+1 (415) 555-2671'') = ''14155552671''"
proof -
  have d: "digits_of ''+52 (55) 1234-5678'' = ''525512345678''"
     "digits_of ''55 1234 5678'' = ''5512345678''"
     "digits_of ''+1 (415) 555-2671'' = ''14155552671''"
    by (simp_all add: digits_of_def)
  from normalizePhoneForWA_cases [of "''+52 (55) 1234-5678''"]
    normalizePhoneForWA_cases [of "''55 1234 5678''"]
    normalizePhoneForWA_cases [of "''+1 (415) 555-2671''"]
  show ?thesis
    unfolding d by simp
qed

text \<open>The result of \<^const>\<open>normalizePhoneForWA\<close> is a digit string, and a second pass keeps it.\<close>

lemma normalizePhoneForWA_digits: "digits_of (normalizePhoneForWA v) = normalizePhoneForWA v"
  unfolding normalizePhoneForWA_def Let_def strip_non_digits_eq
  by (simp add: digits_of_521 digits_of_drop)

lemma normalizePhoneForWA_idempotent:
  "normalizePhoneForWA (JStr (normalizePhoneForWA v)) = normalizePhoneForWA v"
proof -
  define n where "n = normalizePhoneForWA v"
  define num where "num = digits_of (js_String (js_or v (JStr '''')))"
  have dn: "digits_of n = n" unfolding n_def by (rule normalizePhoneForWA_digits)
  have n: "n = (if length num = 12 \<and> take 2 num = ''52'' \<and> take 3 num \<noteq> ''521''
         then ''521'' @ drop 2 num
         else if length num = 10 then ''521'' @ num
         else num)"
    unfolding n_def num_def normalizePhoneForWA_def Let_def strip_non_digits_eq
      startsWith_52 startsWith_521 ..
  have "normalizePhoneForWA (JStr n) = n"
    unfolding normalize_digits dn
    by (auto simp: n)
  then show ?thesis by (simp add: n_def)
qed

text \<open>
  Claim C9. On an input that is already a 13-digit string with the mobile prefix \<open>521\<close>,
  applying \<^const>\<open>normalizePhoneForWA\<close> twice gives the same 13-digit result as applying it
  once (the input itself).
\<close>

theorem normalizePhoneForWA_idempotent_13:
  assumes "all_digits x" and "length x = 13" and "take 3 x = ''521''"
  shows "normalizePhoneForWA (JStr (normalizePhoneForWA (JStr x))) = normalizePhoneForWA (JStr x)
       \<and> normalizePhoneForWA (JStr x) = x
       \<and> length (normalizePhoneForWA (JStr (normalizePhoneForWA (JStr x)))) = 13"
proof -
  from assms(1) have d: "digits_of x = x" by (simp add: all_digits_def)
  have 1: "normalizePhoneForWA (JStr x) = x"
    using assms(2) by (simp add: normalize_digits d)
  show ?thesis using assms(2) by (simp add: 1)
qed

theorem normalizePhoneForWA_idempotent_13_witness:
  "normalizePhoneForWA (JStr (normalizePhoneForWA (JStr ''5215512345678''))) = ''5215512345678''"
proof -
  have h: "all_digits ''5215512345678''" "length ''5215512345678'' = 13"
    "take 3 ''5215512345678'' = ''521''"
    by (simp_all add: all_digits_def digits_of_def)
  from normalizePhoneForWA_idempotent_13 [OF h] show ?thesis by simp
qed

text \<open>
  Claim C6, as the source has it. For every input \<open>d\<close> of exactly 10 digits,
  \<open>toE164(d)\<close> is the number the phone library gives when it accepts \<open>d\<close> as a valid
  number for the default country \<open>MX\<close>, and \<open>+52\<close> followed by \<open>d\<close> when it does not:
  the strict parse comes first, the fallback on ten digits applies only when it
  fails.
\<close>

theorem toE164_ten_digits:
  assumes "length d = 10" and "all_digits d"
  shows "toE164 parse (JStr d) None =
           (case parse d ''MX'' of Some number \<Rightarrow> number | None \<Rightarrow> ''+52'' @ d)"
proof -
  from assms(1) have ne: "d \<noteq> []" by auto
  from assms(2) have raw: "strip_non_digits d = d"
    by (simp add: all_digits_def strip_non_digits_eq)
  have "list_all is_digit d"
    using raw unfolding strip_non_digits_def by (simp add: list_all_iff filter_id_conv)
  with assms(1) have re: "re_digits 10 10 d" by (simp add: re_digits_def)
  show ?thesis
    unfolding toE164_def Let_def js_String_or_empty raw using ne re
    by (simp split: option.split)
qed

text \<open>
  Three libraries: one that rejects every number, so that the fallback of the
  source decides, one that accepts a national number, and one that accepts ten
  digits as a number dialled abroad.
\<close>

theorem toE164_ten_digits_witness:
  "toE164 (\<lambda>raw country. None) (JStr ''5512345678'') None = ''+525512345678'' \<and>
   toE164 (\<lambda>raw country. Some (''+52'' @ raw)) (JStr ''5512345678'') None = ''+525512345678'' \<and>
   toE164 dialled_abroad (JStr ''5512345678'') None = ''+525512345678''"
proof -
  have h: "length ''5512345678'' = 10" "all_digits ''5512345678''"
    by (simp_all add: all_digits_def digits_of_def)
  from toE164_ten_digits [OF h, where parse = "\<lambda>raw country. None"]
       toE164_ten_digits [OF h, where parse = "\<lambda>raw country. Some (''+52'' @ raw)"]
       toE164_ten_digits [OF h, where parse = dialled_abroad]
  show ?thesis by (simp add: dialled_abroad_def)
qed

text \<open>
  Ten digits the library accepts as a number of another country: the result is the
  number of the library, not \<open>+52\<close> followed by the digits.
\<close>

theorem toE164_ten_digits_counterexample:
  "length ''0027812345'' = 10 \<and> all_digits ''0027812345'' \<and>
   toE164 dialled_abroad (JStr ''0027812345'') None = ''+27812345'' \<and>
   toE164 dialled_abroad (JStr ''0027812345'') None \<noteq> ''+52'' @ ''0027812345''"
proof -
  have "all_digits ''0027812345''" by (simp add: all_digits_def digits_of_def)
  moreover
  have "toE164 dialled_abroad (JStr ''0027812345'') None = ''+27812345''" by code_simp
  ultimately show ?thesis by simp
qed

section \<open>Task lock\<close>

text \<open>
  The two paths of \<^const>\<open>withTaskLock\<close>. On the first the result does not depend on the
  action, and the state changes by the console line only: the action is not run.
\<close>

lemma withTaskLock_skip:
  fixes fn :: "('w, 'a::zero) action"
  assumes "taskLocks s name = Some t" and "t \<noteq> 0" and "now - t < minutes * 60000"
  shows "withTaskLock name (Some minutes) fn now s =
           (Inr 0, s\<lparr>console := console s @ [LogLockSkip name]\<rparr>)"
  using assms by (simp add: withTaskLock_def)

lemma withTaskLock_run:
  fixes fn :: "('w, 'a::zero) action"
  assumes "\<not> lock_held name minutes now s"
  shows "withTaskLock name (Some minutes) fn now s =
           (fst (fn (acquired_state name now s)),
            released_state name (snd (fn (acquired_state name now s))))"
  using assms
  by (auto simp: withTaskLock_def lock_held_def acquired_state_def released_state_def
      Let_def split: option.splits prod.splits)

lemma released_not_held: "\<not> lock_held name minutes now (released_state name s)"
  by (simp add: lock_held_def released_state_def)

text \<open>
  Claim C3. A call of \<open>withLock(name, timeoutMinutes, action)\<close> made while an entry for
  \<open>name\<close> exists whose age is below \<open>timeoutMinutes\<close> in milliseconds returns \<open>0\<close> and does
  not run the action: the result is the same for every action, and the state is the
  one before the call, with the console line added. (The entry is a reading of
  \<^verbatim>\<open>Date.now()\<close>, which is not \<open>0\<close>.) A call that finds no such entry runs the action
  on the state with the entry set, returns what the action returns, a value or an
  exception, and removes the entry from the state the action leaves; so a later call
  for the same name, at any time and with any timeout, runs its action again.
\<close>

theorem withTaskLock_contract:
  fixes fn fn' :: "('w, 'a::zero) action"
  shows
    "(taskLocks s name = Some t \<and> t \<noteq> 0 \<and> now - t < minutes * 60000 \<longrightarrow>
        withTaskLock name (Some minutes) fn now s =
          (Inr 0, s\<lparr>console := console s @ [LogLockSkip name]\<rparr>)) \<and>
     (\<not> lock_held name minutes now s \<longrightarrow>
        withTaskLock name (Some minutes) fn now s =
          (fst (fn (acquired_state name now s)),
           released_state name (snd (fn (acquired_state name now s)))) \<and>
        taskLocks (snd (withTaskLock name (Some minutes) fn now s)) name = None \<and>
        (let s' = snd (withTaskLock name (Some minutes) fn now s)
         in withTaskLock name (Some minutes') fn' now' s' =
              (fst (fn' (acquired_state name now' s')),
               released_state name (snd (fn' (acquired_state name now' s'))))))"
proof (intro conjI impI)
  assume "taskLocks s name = Some t \<and> t \<noteq> 0 \<and> now - t < minutes * 60000"
  then show "withTaskLock name (Some minutes) fn now s =
          (Inr 0, s\<lparr>console := console s @ [LogLockSkip name]\<rparr>)"
    by (simp add: withTaskLock_skip)
next
  assume free: "\<not> lock_held name minutes now s"
  note run = withTaskLock_run [OF free, of fn]
  show "withTaskLock name (Some minutes) fn now s =
          (fst (fn (acquired_state name now s)),
           released_state name (snd (fn (acquired_state name now s))))"
    by (rule run)
  show "taskLocks (snd (withTaskLock name (Some minutes) fn now s)) name = None"
    by (simp add: run released_state_def)
  show "let s' = snd (withTaskLock name (Some minutes) fn now s)
         in withTaskLock name (Some minutes') fn' now' s' =
              (fst (fn' (acquired_state name now' s')),
               released_state name (snd (fn' (acquired_state name now' s'))))"
    unfolding Let_def run snd_conv
    by (rule withTaskLock_run) (rule released_not_held)
qed

text \<open>
  A call 300 ms after the lock \<open>x\<close> was taken is skipped and leaves the world as it
  is; after a locked action that throws, the next call runs its action (the world
  has counted two actions).
\<close>

theorem withTaskLock_contract_witness:
  "withTaskLock ''x'' (Some 5) count_call 1000300 (acquired_state ''x'' 1000000 idle_state)
     = (Inr 0, \<lparr>taskLocks = [''x'' \<mapsto> 1000000], console = [LogLockSkip ''x''], world = 0\<rparr>)
   \<and> fst (withTaskLock ''x'' (Some 5) failing_call 1000000 idle_state) = Inl (Thrown ''boom'')
   \<and> world (snd (withTaskLock ''x'' (Some 5) count_call 1000900
        (snd (withTaskLock ''x'' (Some 5) failing_call 1000000 idle_state)))) = 2"
proof -
  have a: "taskLocks (acquired_state ''x'' 1000000 idle_state) ''x'' = Some 1000000 \<and>
        (1000000::int) \<noteq> 0 \<and> (1000300::int) - 1000000 < 5 * 60000"
    by (simp add: acquired_state_def)
  have b: "\<not> lock_held ''x'' 5 1000000 idle_state"
    by (simp add: lock_held_def idle_state_def)
  from withTaskLock_contract [where s = "acquired_state ''x'' 1000000 idle_state"
      and name = "''x''" and t = 1000000 and now = 1000300 and minutes = 5
      and fn = count_call] a
  have 1: "withTaskLock ''x'' (Some 5) count_call 1000300
             (acquired_state ''x'' 1000000 idle_state)
     = (Inr 0, \<lparr>taskLocks = [''x'' \<mapsto> 1000000], console = [LogLockSkip ''x''], world = 0\<rparr>)"
    by (simp add: acquired_state_def idle_state_def)
  from withTaskLock_contract [where s = idle_state and name = "''x''" and now = 1000000
      and minutes = 5 and fn = failing_call and fn' = count_call and minutes' = 5
      and now' = 1000900] b
  have 2: "fst (withTaskLock ''x'' (Some 5) failing_call 1000000 idle_state)
             = Inl (Thrown ''boom'') \<and>
       world (snd (withTaskLock ''x'' (Some 5) count_call 1000900
        (snd (withTaskLock ''x'' (Some 5) failing_call 1000000 idle_state)))) = 2"
    by (simp add: Let_def acquired_state_def released_state_def count_call_def
        failing_call_def idle_state_def withTaskLock_def)
  from 1 2 show ?thesis by simp
qed

text \<open>
  The test \<^verbatim>\<open>existing && ...\<close> takes an entry that is \<open>0\<close> for no entry; \<^verbatim>\<open>Date.now()\<close> is \<open>0\<close>
  for a clock that shows the first millisecond of 1970 only.
\<close>

lemma withTaskLock_zero_entry:
  fixes fn :: "('w, 'a::zero) action"
  assumes "taskLocks s name = Some 0"
  shows "withTaskLock name (Some minutes) fn now s =
           (fst (fn (acquired_state name now s)),
            released_state name (snd (fn (acquired_state name now s))))"
  using assms
  by (auto simp: withTaskLock_def acquired_state_def released_state_def
      Let_def split: prod.splits)

section \<open>Sequence processor\<close>

lemma process_batch_throws:
  assumes "processDueSequenceJobs Q = Some f \<or>
           (processDueSequenceJobs Q = None \<and> processQueue Q = Some f)"
    and "fst (f batchSize s) = Inl err"
  shows "process_batch Q batchSize s =
           (Inr 0, (snd (f batchSize s))
                     \<lparr>console := console (snd (f batchSize s)) @ [LogQueueError err]\<rparr>)"
  using assms
  by (cases "f batchSize s")
     (auto simp: process_batch_def Let_def split: option.splits sum.splits)

text \<open>
  Claim C2. For every invocation of \<open>processSequences\<close> whose lock is not contended and
  whose argument can be destructured (it is left out or is an object), if the
  function the queue module exports throws or rejects when it is called with the
  batch size, the promise resolves to \<open>0\<close>: it does not reject. The lock is released
  and the error is on the console.
\<close>

theorem processSequences_queue_throws:
  fixes Q :: "'w queue_module"
  assumes "destructure_batchSize options = Inr batchSize"
    and "\<not> lock_held ''processSequences'' 5 now s"
    and "processDueSequenceJobs Q = Some f \<or>
           (processDueSequenceJobs Q = None \<and> processQueue Q = Some f)"
    and "fst (f batchSize (acquired_state ''processSequences'' now s)) = Inl err"
  shows "fst (processSequences Q options now s) = Inr 0 \<and>
         taskLocks (snd (processSequences Q options now s)) ''processSequences'' = None \<and>
         LogQueueError err \<in> set (console (snd (processSequences Q options now s)))"
proof -
  have "processSequences Q options now s =
          withTaskLock ''processSequences'' (Some 5) (process_batch Q batchSize) now s"
    by (simp add: processSequences_def assms(1))
  also have "\<dots> = (fst (process_batch Q batchSize (acquired_state ''processSequences'' now s)),
           released_state ''processSequences''
             (snd (process_batch Q batchSize (acquired_state ''processSequences'' now s))))"
    by (rule withTaskLock_run [OF assms(2)])
  finally show ?thesis
    by (simp add: process_batch_throws [OF assms(3,4)] released_state_def)
qed

text \<open>The scheduled call, with no argument, on a queue whose function rejects.\<close>

theorem processSequences_queue_throws_witness:
  "fst (processSequences failing_queue OptionsUndefined 1000000 idle_state) = Inr 0 \<and>
   taskLocks (snd (processSequences failing_queue OptionsUndefined 1000000 idle_state))
     ''processSequences'' = None \<and>
   LogQueueError (Thrown ''boom'')
     \<in> set (console (snd (processSequences failing_queue OptionsUndefined 1000000 idle_state)))"
proof -
  have 1: "destructure_batchSize OptionsUndefined = Inr 200" by simp
  have 2: "\<not> lock_held ''processSequences'' 5 1000000 idle_state"
    by (simp add: lock_held_def idle_state_def)
  have 3: "processDueSequenceJobs failing_queue = Some (\<lambda>batchSize. failing_call) \<or>
           (processDueSequenceJobs failing_queue = None \<and>
            processQueue failing_queue = Some (\<lambda>batchSize. failing_call))"
    by (simp add: failing_queue_def)
  have 4: "fst ((\<lambda>batchSize. failing_call) 200
             (acquired_state ''processSequences'' 1000000 idle_state)) = Inl (Thrown ''boom'')"
    by (simp add: failing_call_def)
  show ?thesis by (rule processSequences_queue_throws [OF 1 2 3 4])
qed

text \<open>With \<^verbatim>\<open>null\<close> for its argument the call rejects before the lock and the queue are reached.\<close>

lemma processSequences_null: "processSequences Q OptionsNull now s = (Inl TypeError, s)"
  by (simp add: processSequences_def)

section \<open>Message dispatcher: dispatch and failures\<close>

lemma sends_append: "sends (xs @ ys) = sends xs @ sends ys"
  by (induction xs rule: sends.induct) simp_all

lemma sends_send_if:
  "sends (fst (send_if sm x jid p)) = (if x = [] then [] else [(jid, p)])"
  by (simp add: send_if_def)

lemma toLowerCase_literals:
  "toLowerCase ''texto'' = ''texto''" "toLowerCase ''formulario'' = ''formulario''"
  "toLowerCase ''audio'' = ''audio''" "toLowerCase ''imagen'' = ''imagen''"
  "toLowerCase ''video'' = ''video''"
  by (simp_all add: toLowerCase_def to_lower_def upper_chars_def lower_chars_def)

lemma kind_of_lower:
  "map_option snd (find (\<lambda>(name, k). same_ignoring_case t name) kind_names) =
     (if toLowerCase t = ''texto'' then Some Texto
      else if toLowerCase t = ''formulario'' then Some Formulario
      else if toLowerCase t = ''audio'' then Some Audio
      else if toLowerCase t = ''imagen'' then Some Imagen
      else if toLowerCase t = ''video'' then Some Video
      else None)"
  by (simp add: kind_names_def same_ignoring_case_def toLowerCase_literals)

lemma toLowerCase_Nil [simp]: "toLowerCase [] = []"
  by (simp add: toLowerCase_def)

text \<open>The try block, once the handle and the phone are there.\<close>

lemma enviarMensaje_try_dispatch:
  assumes sock: "getWhatsAppSock e = Inr (Some sm)"
    and phone: "lead_phone e (Some l) \<noteq> []"
  shows "enviarMensaje_try e (Some l) m =
     (case message_kind m of
        Some k \<Rightarrow> send_if sm (rendered_content k e l m) (lead_jid e (Some l))
                    (payload_of k (rendered_content k e l m))
      | None \<Rightarrow> (case mensaje_type m of
                   JStr t \<Rightarrow> ([WarnUnknownType (mensaje_type m)], None)
                 | _ \<Rightarrow> ([], Some TypeError)))"
proof (cases "mensaje_type m")
  case JUndefined
  then show ?thesis using sock phone
    by (simp add: enviarMensaje_try_def message_kind_def lead_phone_def lead_jid_def
        js_or_def Let_def toLowerCase_literals rendered_content_def message_template_def)
next
  case JNull
  then show ?thesis using sock phone
    by (simp add: enviarMensaje_try_def message_kind_def lead_phone_def lead_jid_def
        js_or_def Let_def toLowerCase_literals rendered_content_def message_template_def)
next
  case (JBool b)
  then show ?thesis using sock phone
    by (cases b) (simp_all add: enviarMensaje_try_def message_kind_def lead_phone_def lead_jid_def
        js_or_def Let_def toLowerCase_literals rendered_content_def message_template_def)
next
  case (JStr t)
  show ?thesis
  proof (cases "t = []")
    case True
    with JStr show ?thesis using sock phone
      by (simp add: enviarMensaje_try_def message_kind_def lead_phone_def lead_jid_def
        js_or_def Let_def toLowerCase_literals rendered_content_def message_template_def)
  next
    case False
    with JStr show ?thesis using sock phone
      by (simp add: enviarMensaje_try_def message_kind_def lead_phone_def lead_jid_def
        js_or_def Let_def kind_of_lower rendered_content_def message_template_def)
  qed
qed

lemma sends_enviarMensaje:
  "sends (fst (enviarMensaje e lead m)) = sends (fst (enviarMensaje_try e lead m))"
  by (simp add: enviarMensaje_def try_catch_def sends_append split: option.split)

lemma enviarMensaje_try_no_handle:
  "channel_handle e = None \<Longrightarrow> sends (fst (enviarMensaje_try e lead m)) = []"
  by (auto simp: channel_handle_def enviarMensaje_try_def split: sum.splits option.splits)

lemma enviarMensaje_try_no_lead:
  "sends (fst (enviarMensaje_try e None m)) = []"
  by (auto simp: enviarMensaje_try_def split: sum.splits option.splits)

lemma enviarMensaje_try_no_phone:
  "lead_phone e (Some l) = [] \<Longrightarrow> sends (fst (enviarMensaje_try e (Some l) m)) = []"
  by (auto simp: enviarMensaje_try_def lead_phone_def Let_def split: sum.splits option.splits)

lemma sends_dispatch:
  assumes "channel_handle e = Some sm" and "lead_phone e (Some l) \<noteq> []"
  shows "sends (fst (enviarMensaje e (Some l) m)) =
     (case message_kind m of
        None \<Rightarrow> []
      | Some k \<Rightarrow> if rendered_content k e l m = [] then []
                  else [(lead_jid e (Some l), payload_of k (rendered_content k e l m))])"
proof -
  from assms(1) have sock: "getWhatsAppSock e = Inr (Some sm)"
    by (auto simp: channel_handle_def split: sum.splits option.splits)
  show ?thesis
    unfolding sends_enviarMensaje enviarMensaje_try_dispatch [OF sock assms(2)]
    by (auto simp: sends_send_if split: option.splits jsval.splits)
qed

text \<open>The calls of a dispatch: at most one, and none in four cases only.\<close>

lemma sends_none_iff:
  "length (sends (fst (enviarMensaje e lead m))) \<le> 1 \<and>
   (sends (fst (enviarMensaje e lead m)) = [] \<longleftrightarrow>
      channel_handle e = None \<or> lead_phone e lead = [] \<or>
      dispatch_content e lead m = [] \<or> message_kind m = None)"
proof (cases "channel_handle e")
  case None
  then show ?thesis by (simp add: sends_enviarMensaje enviarMensaje_try_no_handle)
next
  case (Some sm)
  show ?thesis
  proof (cases lead)
    case None
    then show ?thesis
      by (simp add: sends_enviarMensaje enviarMensaje_try_no_lead lead_phone_def)
  next
    case l: (Some l)
    show ?thesis
    proof (cases "lead_phone e (Some l) = []")
      case True
      then show ?thesis
        by (simp add: l sends_enviarMensaje enviarMensaje_try_no_phone)
    next
      case False
      show ?thesis
        unfolding l sends_dispatch [OF Some False]
        using Some False
        by (auto simp: dispatch_content_def split: option.splits)
    qed
  qed
qed

text \<open>
  Claim C8. Every call of the dispatcher performs at most one send: it performs none
  when the channel handle is missing, the phone is empty, the content is empty
  after rendering and trimming, or the type is not recognised, and one send in
  every other case.
\<close>

theorem enviarMensaje_at_most_one_send:
  "length (sends (fst (enviarMensaje e lead m))) \<le> 1 \<and>
   length (sends (fst (enviarMensaje e lead m))) =
     (if channel_handle e = None \<or> lead_phone e lead = [] \<or>
         dispatch_content e lead m = [] \<or> message_kind m = None
      then 0 else 1)"
  using sends_none_iff [of e lead m]
  by (cases "sends (fst (enviarMensaje e lead m))") auto

text \<open>An unrecognised type: no send. A greeting on an open channel: one send.\<close>

theorem enviarMensaje_at_most_one_send_witness:
  "sends (fst (enviarMensaje open_env (Some juan) (Some sticker))) = [] \<and>
   length (sends (fst (enviarMensaje open_env (Some juan) (Some saludo)))) = 1"
proof -
  have k: "message_kind (Some sticker) = None" by code_simp
  from enviarMensaje_at_most_one_send [of open_env "Some juan" "Some sticker"] k
  have 1: "sends (fst (enviarMensaje open_env (Some juan) (Some sticker))) = []"
    by simp
  have h: "channel_handle open_env \<noteq> None" "lead_phone open_env (Some juan) \<noteq> []"
    "dispatch_content open_env (Some juan) (Some saludo) \<noteq> []"
    "message_kind (Some saludo) \<noteq> None"
    by code_simp+
  from enviarMensaje_at_most_one_send [of open_env "Some juan" "Some saludo"] h
  have 2: "length (sends (fst (enviarMensaje open_env (Some juan) (Some saludo)))) = 1"
    by simp
  from 1 2 show ?thesis by simp
qed

lemma enviarMensaje_try_phone_empty:
  "getWhatsAppSock e = Inr (Some sm) \<Longrightarrow> lead_phone e (Some l) = [] \<Longrightarrow>
   enviarMensaje_try e (Some l) m = ([WarnNoPhone], None)"
  by (simp add: enviarMensaje_try_def lead_phone_def Let_def)

text \<open>
  Claim C4. For every lead and message descriptor, and whatever the collaborators
  do, the promise of \<open>enviarMensaje\<close> resolves: no exception reaches the caller. What
  the call does is a warning on the console (no socket, no phone, unknown type),
  nothing (empty content), or one send; and every exception, be it thrown by
  \<^verbatim>\<open>getWhatsAppSock\<close>, by the read of a lead that is \<^verbatim>\<open>null\<close>, by \<^verbatim>\<open>toLowerCase\<close> on a type
  that is no string, or by the send, ends as one error line on the console.
\<close>

theorem enviarMensaje_never_rejects:
  "snd (enviarMensaje e lead m) = None \<and>
   fst (enviarMensaje e lead m) =
     (case getWhatsAppSock e of
        Inl err \<Rightarrow> [ErrorSending err]
      | Inr None \<Rightarrow> [WarnNoSocket]
      | Inr (Some sendMessage) \<Rightarrow>
          (case lead of
             None \<Rightarrow> [ErrorSending TypeError]
           | Some l \<Rightarrow>
               if lead_phone e lead = [] then [WarnNoPhone]
               else
                 (case message_kind m of
                    None \<Rightarrow>
                      (case mensaje_type m of
                         JStr t \<Rightarrow> [WarnUnknownType (mensaje_type m)]
                       | _ \<Rightarrow> [ErrorSending TypeError])
                  | Some k \<Rightarrow>
                      let c = rendered_content k e l m;
                          jid = lead_jid e lead;
                          p = payload_of k c
                      in if c = [] then []
                         else SendMessage jid p #
                                (case sendMessage jid p of
                                   None \<Rightarrow> []
                                 | Some err \<Rightarrow> [ErrorSending err]))))"
proof (rule conjI)
  show "snd (enviarMensaje e lead m) = None"
    by (simp add: enviarMensaje_def try_catch_def split: option.split)
next
  show "fst (enviarMensaje e lead m) =
     (case getWhatsAppSock e of
        Inl err \<Rightarrow> [ErrorSending err]
      | Inr None \<Rightarrow> [WarnNoSocket]
      | Inr (Some sendMessage) \<Rightarrow>
          (case lead of
             None \<Rightarrow> [ErrorSending TypeError]
           | Some l \<Rightarrow>
               if lead_phone e lead = [] then [WarnNoPhone]
               else
                 (case message_kind m of
                    None \<Rightarrow>
                      (case mensaje_type m of
                         JStr t \<Rightarrow> [WarnUnknownType (mensaje_type m)]
                       | _ \<Rightarrow> [ErrorSending TypeError])
                  | Some k \<Rightarrow>
                      let c = rendered_content k e l m;
                          jid = lead_jid e lead;
                          p = payload_of k c
                      in if c = [] then []
                         else SendMessage jid p #
                                (case sendMessage jid p of
                                   None \<Rightarrow> []
                                 | Some err \<Rightarrow> [ErrorSending err]))))"
  proof (cases "getWhatsAppSock e")
    case (Inl err)
    then show ?thesis
      by (simp add: enviarMensaje_def try_catch_def enviarMensaje_try_def)
  next
    case (Inr h)
    show ?thesis
    proof (cases h)
      case None
      with Inr show ?thesis
        by (simp add: enviarMensaje_def try_catch_def enviarMensaje_try_def)
    next
      case (Some sm)
      with Inr have sock: "getWhatsAppSock e = Inr (Some sm)" by simp
      show ?thesis
      proof (cases lead)
        case None
        with sock show ?thesis
          by (simp add: enviarMensaje_def try_catch_def enviarMensaje_try_def)
      next
        case l: (Some l)
        show ?thesis
        proof (cases "lead_phone e (Some l) = []")
          case True
          with sock l show ?thesis
            by (simp add: enviarMensaje_def try_catch_def enviarMensaje_try_phone_empty)
        next
          case False
          show ?thesis
            unfolding l enviarMensaje_def try_catch_def
              enviarMensaje_try_dispatch [OF sock False]
            using sock False
            by (auto simp: send_if_def Let_def split: option.splits jsval.splits)
        qed
      qed
    qed
  qed
qed

text \<open>A send that rejects: the rejection is logged and the call resolves.\<close>

theorem enviarMensaje_never_rejects_witness:
  "enviarMensaje closed_env (Some juan) (Some saludo) =
     ([SendMessage ''5215512345678@s.whatsapp.net'' (TextPayload ''Hola Juan'' False),
       ErrorSending (Thrown ''Connection Closed'')], None)"
proof -
  have g: "getWhatsAppSock closed_env =
             Inr (Some (\<lambda>jid p. Some (Thrown ''Connection Closed'')))"
    by (simp add: closed_env_def)
  have p: "lead_phone closed_env (Some juan) \<noteq> []" by code_simp
  have k: "message_kind (Some saludo) = Some Texto" by code_simp
  have c: "rendered_content Texto closed_env juan (Some saludo) = ''Hola Juan''"
    by code_simp
  have j: "lead_jid closed_env (Some juan) = ''5215512345678@s.whatsapp.net''"
    by code_simp
  from enviarMensaje_never_rejects [of closed_env "Some juan" "Some saludo"]
  show ?thesis
    by (simp add: g p k c j prod_eq_iff Let_def)
qed

text \<open>The kind of a descriptor, by the lower-case form of its type.\<close>

lemma message_kind_cases:
  "message_kind m =
     (case mensaje_type m of
        JStr t \<Rightarrow>
          if t = [] \<or> toLowerCase t = ''texto'' then Some Texto
          else if toLowerCase t = ''formulario'' then Some Formulario
          else if toLowerCase t = ''audio'' then Some Audio
          else if toLowerCase t = ''imagen'' then Some Imagen
          else if toLowerCase t = ''video'' then Some Video
          else None
      | JBool True \<Rightarrow> None
      | _ \<Rightarrow> Some Texto)"
  by (simp add: message_kind_def kind_of_lower split: jsval.split bool.split)

text \<open>
  Claim C1, as the source has it. Once the channel handle and a non-empty phone are
  there, the dispatcher selects the send by comparing the type of the descriptor,
  ignoring case, with the names \<open>texto\<close>, \<open>formulario\<close>, \<open>audio\<close>, \<open>imagen\<close> and \<open>video\<close>; a
  missing type counts as \<open>texto\<close>. For the kind \<open>texto\<close> it renders the template
  against the lead, trims the result, and performs a plain-text send of it if and
  only if it is not empty.
\<close>

theorem dispatch_by_type:
  assumes "channel_handle e = Some sm" and "lead_phone e (Some l) \<noteq> []"
  shows
    "sends (fst (enviarMensaje e (Some l) m)) =
       (case message_kind m of
          None \<Rightarrow> []
        | Some k \<Rightarrow> if rendered_content k e l m = [] then []
                    else [(lead_jid e (Some l), payload_of k (rendered_content k e l m))]) \<and>
     message_kind m =
       (case mensaje_type m of
          JStr t \<Rightarrow>
            if t = [] \<or> toLowerCase t = ''texto'' then Some Texto
            else if toLowerCase t = ''formulario'' then Some Formulario
            else if toLowerCase t = ''audio'' then Some Audio
            else if toLowerCase t = ''imagen'' then Some Imagen
            else if toLowerCase t = ''video'' then Some Video
            else None
        | JBool True \<Rightarrow> None
        | _ \<Rightarrow> Some Texto) \<and>
     (message_kind m = Some Texto \<longrightarrow>
        (let text = trim (replacePlaceholders (message_template m) (Some l))
         in (sends (fst (enviarMensaje e (Some l) m)) \<noteq> [] \<longleftrightarrow> text \<noteq> []) \<and>
            (text \<noteq> [] \<longrightarrow>
               sends (fst (enviarMensaje e (Some l) m)) =
                 [(lead_jid e (Some l), TextPayload text False)])))"
proof (intro conjI impI)
  show "sends (fst (enviarMensaje e (Some l) m)) =
       (case message_kind m of
          None \<Rightarrow> []
        | Some k \<Rightarrow> if rendered_content k e l m = [] then []
                    else [(lead_jid e (Some l), payload_of k (rendered_content k e l m))])"
    by (rule sends_dispatch [OF assms])
  show "message_kind m =
       (case mensaje_type m of
          JStr t \<Rightarrow>
            if t = [] \<or> toLowerCase t = ''texto'' then Some Texto
            else if toLowerCase t = ''formulario'' then Some Formulario
            else if toLowerCase t = ''audio'' then Some Audio
            else if toLowerCase t = ''imagen'' then Some Imagen
            else if toLowerCase t = ''video'' then Some Video
            else None
        | JBool True \<Rightarrow> None
        | _ \<Rightarrow> Some Texto)"
    by (rule message_kind_cases)
  assume "message_kind m = Some Texto"
  then show "let text = trim (replacePlaceholders (message_template m) (Some l))
         in (sends (fst (enviarMensaje e (Some l) m)) \<noteq> [] \<longleftrightarrow> text \<noteq> []) \<and>
            (text \<noteq> [] \<longrightarrow>
               sends (fst (enviarMensaje e (Some l) m)) =
                 [(lead_jid e (Some l), TextPayload text False)])"
    by (simp add: sends_dispatch [OF assms] rendered_content_def Let_def)
qed

text \<open>The type \<open>TEXTO\<close>, in capitals, with a template that renders to \<open>Hola Juan\<close>.\<close>

theorem dispatch_by_type_witness:
  "sends (fst (enviarMensaje open_env (Some juan) (Some saludo))) =
     [(''5215512345678@s.whatsapp.net'', TextPayload ''Hola Juan'' False)]"
proof -
  have h: "channel_handle open_env = Some (\<lambda>jid p. None)"
    by (simp add: channel_handle_def open_env_def)
  have p: "lead_phone open_env (Some juan) \<noteq> []" by code_simp
  have v: "message_kind (Some saludo) = Some Texto"
    "rendered_content Texto open_env juan (Some saludo) = ''Hola Juan''"
    "lead_jid open_env (Some juan) = ''5215512345678@s.whatsapp.net''"
    by code_simp+
  from dispatch_by_type [OF h p, of "Some saludo"] show ?thesis
    by (simp add: v)
qed

text \<open>
  The claim as the specification words it fails: a descriptor of type \<open>text\<close> whose
  template renders to a non-empty string is not sent. The type \<open>text\<close> is none of the
  names of the source, so the dispatcher logs an unknown type.
\<close>

theorem dispatch_text_counterexample:
  "trim (replacePlaceholders (contenido text_message) (Some juan)) \<noteq> [] \<and>
   channel_handle open_env \<noteq> None \<and> lead_phone open_env (Some juan) \<noteq> [] \<and>
   enviarMensaje open_env (Some juan) (Some text_message) =
     ([WarnUnknownType (JStr ''text'')], None)"
  by code_simp

section \<open>The form case of the dispatcher\<close>

text \<open>First occurrences, and what \<^const>\<open>replace_first\<close> does with them.\<close>

lemma startsWith_append: "startsWith (p @ r) p"
  by (simp add: startsWith_def)

lemma startsWith_split: "startsWith s p \<Longrightarrow> s = p @ drop (length p) s"
  unfolding startsWith_def by (metis append_take_drop_id)

lemma startsWith_longer:
  "length p \<le> length x \<Longrightarrow> startsWith (x @ y) p = startsWith x p"
  by (simp add: startsWith_def)

lemma occurs_Nil [simp]: "occurs [] s"
  by (cases s) (simp_all add: startsWith_def)

lemma occurs_suffix: "occurs p y \<Longrightarrow> occurs p (x @ y)"
  by (induction x) simp_all

lemma occurs_prefix: "occurs p (p @ v)"
proof (cases p)
  case Nil
  then show ?thesis by simp
next
  case (Cons x xs)
  with startsWith_append [of p v] show ?thesis by simp
qed

lemma occurs_intro: "occurs p (u @ p @ v)"
  by (rule occurs_suffix) (rule occurs_prefix)

lemma occurs_split: "occurs p s \<Longrightarrow> \<exists>u v. s = u @ p @ v"
proof (induction s)
  case Nil
  then show ?case by simp
next
  case (Cons c cs)
  show ?case
  proof (cases "startsWith (c # cs) p")
    case True
    then have "c # cs = [] @ p @ drop (length p) (c # cs)"
      using startsWith_split by fastforce
    then show ?thesis by blast
  next
    case False
    with Cons.prems have "occurs p cs" by simp
    then obtain u v where "cs = u @ p @ v" using Cons.IH by blast
    then have "c # cs = (c # u) @ p @ v" by simp
    then show ?thesis by blast
  qed
qed

lemma replace_first_absent: "\<not> occurs pat s \<Longrightarrow> replace_first pat rep s = s"
  by (induction s) auto

lemma replace_first_at_first:
  assumes "pat \<noteq> []" and "\<not> occurs pat (a @ butlast pat)"
  shows "replace_first pat rep (a @ pat @ b) = a @ rep @ b"
  using assms(2)
proof (induction a)
  case Nil
  from assms(1) obtain p ps where pat: "pat = p # ps" by (cases pat) auto
  have "startsWith (pat @ b) pat" by (rule startsWith_append)
  then show ?case by (simp add: pat)
next
  case (Cons c a)
  from Cons.prems have n: "\<not> startsWith (c # a @ butlast pat) pat"
    and r: "\<not> occurs pat (a @ butlast pat)" by simp_all
  have "length pat \<le> length (c # a @ butlast pat)" by simp
  then have k: "startsWith ((c # a @ butlast pat) @ ([last pat] @ b)) pat
               = startsWith (c # a @ butlast pat) pat"
    by (rule startsWith_longer)
  have e: "(c # a @ butlast pat) @ ([last pat] @ b) = c # a @ pat @ b"
    using assms(1) by simp
  have "\<not> startsWith (c # a @ pat @ b) pat" using n k unfolding e by simp
  then show ?case using Cons.IH [OF r] by simp
qed

text \<open>Replacing line breaks keeps a pattern that holds none.\<close>

lemma replace_newlines_plain_char:
  "c \<noteq> CHR 0x0D \<Longrightarrow> c \<noteq> CHR 0x0A \<Longrightarrow> replace_newlines (c # s) = c # replace_newlines s"
  by (cases s) simp_all

lemma replace_newlines_plain:
  "\<forall>c\<in>set p. c \<noteq> CHR 0x0D \<and> c \<noteq> CHR 0x0A \<Longrightarrow>
   replace_newlines (p @ v) = p @ replace_newlines v"
  by (induction p) (simp_all add: replace_newlines_plain_char)

lemma replace_newlines_append:
  "v \<noteq> [] \<Longrightarrow> hd v \<noteq> CHR 0x0A \<Longrightarrow>
   replace_newlines (u @ v) = replace_newlines u @ replace_newlines v"
proof (induction u rule: replace_newlines.induct)
  case 1
  then show ?case by simp
next
  case (2 c)
  then show ?case by (cases v) auto
next
  case (3 c d cs)
  then show ?case by auto
qed

lemma occurs_replace_newlines:
  assumes "occurs p s" and "p \<noteq> []" and "\<forall>c\<in>set p. c \<noteq> CHR 0x0D \<and> c \<noteq> CHR 0x0A"
  shows "occurs p (replace_newlines s)"
proof -
  from assms(1) obtain u v where s: "s = u @ p @ v" using occurs_split by blast
  have "hd (p @ v) \<noteq> CHR 0x0A" using assms(2,3) by (cases p) auto
  then have "replace_newlines (u @ p @ v) = replace_newlines u @ replace_newlines (p @ v)"
    using assms(2) by (intro replace_newlines_append) auto
  also have "\<dots> = replace_newlines u @ p @ replace_newlines v"
    by (simp add: replace_newlines_plain [OF assms(3)])
  finally show ?thesis by (simp add: s occurs_intro)
qed

text \<open>Trimming keeps a pattern that neither starts nor ends with white space.\<close>

lemma dropWhile_keeps:
  assumes "p \<noteq> []" and "\<not> P (hd p)"
  shows "\<exists>u'. dropWhile P (u @ p @ v) = u' @ p @ v"
proof (cases "\<forall>x\<in>set u. P x")
  case True
  have "dropWhile P (p @ v) = p @ v" using assms by (cases p) auto
  with True have "dropWhile P (u @ p @ v) = [] @ p @ v" by simp
  then show ?thesis by blast
next
  case False
  then obtain x where "x \<in> set u" "\<not> P x" by blast
  then have "dropWhile P (u @ p @ v) = dropWhile P u @ p @ v"
    by (rule dropWhile_append1)
  then show ?thesis by blast
qed

lemma occurs_trim:
  assumes "occurs p s" and "p \<noteq> []" and "\<not> is_space (hd p)" and "\<not> is_space (last p)"
  shows "occurs p (trim s)"
proof -
  from assms(1) obtain u v where s: "s = u @ p @ v" using occurs_split by blast
  obtain u' where 1: "dropWhile is_space (u @ p @ v) = u' @ p @ v"
    using dropWhile_keeps [where P = is_space, OF assms(2,3)] by blast
  have rp: "rev p \<noteq> []" "\<not> is_space (hd (rev p))"
    using assms(2,4) by (simp_all add: hd_rev)
  obtain w where 2: "dropWhile is_space (rev v @ rev p @ rev u') = w @ rev p @ rev u'"
    using dropWhile_keeps [where P = is_space, OF rp] by blast
  have "trim s = u' @ p @ rev w"
    by (simp add: trim_def s 1 2)
  then show ?thesis by (simp add: occurs_intro)
qed

text \<open>The substitution of the name keeps every phone placeholder.\<close>

lemma nombre_not_in_telefono:
  "replace_first ''{{nombre}}'' rep (''{{telefono}}'' @ rest) =
     ''{{telefono}}'' @ replace_first ''{{nombre}}'' rep rest"
  by (simp add: startsWith_def)

lemma telefono_not_in_nombre:
  "occurs ''{{telefono}}'' (''{{nombre}}'' @ rest) = occurs ''{{telefono}}'' rest"
  by (simp add: startsWith_def)

lemma occurs_telefono_replace_nombre:
  "occurs ''{{telefono}}'' s \<Longrightarrow> occurs ''{{telefono}}'' (replace_first ''{{nombre}}'' rep s)"
proof (induction s)
  case Nil
  then show ?case by simp
next
  case (Cons c cs)
  show ?case
  proof (cases "startsWith (c # cs) ''{{nombre}}''")
    case True
    then have s: "c # cs = ''{{nombre}}'' @ drop (length ''{{nombre}}'') (c # cs)"
      by (rule startsWith_split)
    with Cons.prems have "occurs ''{{telefono}}'' (drop (length ''{{nombre}}'') (c # cs))"
      by (metis telefono_not_in_nombre)
    then have "occurs ''{{telefono}}'' (rep @ drop (length ''{{nombre}}'') (c # cs))"
      by (rule occurs_suffix)
    with True show ?thesis by simp
  next
    case False
    show ?thesis
    proof (cases "startsWith (c # cs) ''{{telefono}}''")
      case True
      then have s: "c # cs = ''{{telefono}}'' @ drop (length ''{{telefono}}'') (c # cs)"
        by (rule startsWith_split)
      have "replace_first ''{{nombre}}'' rep (c # cs) =
              ''{{telefono}}'' @ replace_first ''{{nombre}}'' rep (drop (length ''{{telefono}}'') (c # cs))"
        by (subst s) (rule nombre_not_in_telefono)
      then show ?thesis
        by (metis append_Nil occurs_intro)
    next
      case t: False
      with Cons.prems have "occurs ''{{telefono}}'' cs" by simp
      then have "occurs ''{{telefono}}'' (replace_first ''{{nombre}}'' rep cs)"
        by (rule Cons.IH)
      with False show ?thesis by simp
    qed
  qed
qed

text \<open>
  The two replacements of the form case hold no \<^verbatim>\<open>$\<close>, so \<^verbatim>\<open>replace\<close> inserts them as they are.
\<close>

lemma hex_digit_not_dollar: "hex_digit n \<noteq> CHR ''$''" "CHR ''$'' \<noteq> hex_digit n"
proof -
  have "hex_digit n \<in> set ''0123456789ABCDEF''"
    unfolding hex_digit_def by (rule nth_mem) simp
  then show "hex_digit n \<noteq> CHR ''$''" "CHR ''$'' \<noteq> hex_digit n" by auto
qed

lemma percent_byte_no_dollar: "CHR ''$'' \<notin> set (percent_byte b)"
  by (simp add: percent_byte_def hex_digit_not_dollar)

lemma encode_char_no_dollar: "CHR ''$'' \<notin> set (encode_char c)"
proof (cases "uri_unreserved c")
  case True
  then have "c \<noteq> CHR ''$''" by (auto simp: uri_unreserved_def)
  with True show ?thesis by (simp add: encode_char_def)
next
  case False
  then show ?thesis
    by (simp add: encode_char_def percent_byte_no_dollar Let_def)
qed

lemma encodeURIComponent_no_dollar: "CHR ''$'' \<notin> set (encodeURIComponent s)"
  by (simp add: encodeURIComponent_def encode_char_no_dollar)

lemma strip_non_digits_no_dollar: "CHR ''$'' \<notin> set (strip_non_digits s)"
  by (simp add: strip_non_digits_def is_digit_def)

lemma telefono_plain:
  "''{{telefono}}'' \<noteq> []" "\<forall>c\<in>set ''{{telefono}}''. c \<noteq> CHR 0x0D \<and> c \<noteq> CHR 0x0A"
  "\<not> is_space (hd ''{{telefono}}'')" "\<not> is_space (last ''{{telefono}}'')"
  by (simp_all add: is_space_def)

lemma nombre_plain:
  "''{{nombre}}'' \<noteq> []" "\<forall>c\<in>set ''{{nombre}}''. c \<noteq> CHR 0x0D \<and> c \<noteq> CHR 0x0A"
  "\<not> is_space (hd ''{{nombre}}'')" "\<not> is_space (last ''{{nombre}}'')"
  by (simp_all add: is_space_def)

text \<open>
  Claim C10. In the \<open>formulario\<close> case the sent text is the template after four
  steps: the first occurrence of \<open>{{telefono}}\<close> is replaced by the digits of the
  phone, then the first occurrence of \<open>{{nombre}}\<close> by the URL-encoded full name,
  then line breaks become spaces and the text is trimmed. Only the first occurrence
  of each placeholder is substituted: what follows it is kept as it is, and a
  later occurrence of the placeholder is still in the sent text. A template
  without the placeholder is left unchanged by that step.
\<close>

theorem formulario_first_occurrence_only:
  assumes "channel_handle e = Some sm" and "lead_phone e (Some l) \<noteq> []"
    and "message_kind m = Some Formulario" and "message_template m = JStr raw"
  defines "digits \<equiv> strip_non_digits (lead_phone e (Some l))"
    and "name \<equiv> encodeURIComponent (js_String (js_or (l ''nombre'') (JStr '''')))"
  defines "step1 \<equiv> replace_first ''{{telefono}}'' digits raw"
  defines "step2 \<equiv> replace_first ''{{nombre}}'' name step1"
  defines "text \<equiv> trim (replace_newlines step2)"
  shows
    "sends (fst (enviarMensaje e (Some l) m)) =
       (if text = [] then [] else [(lead_jid e (Some l), TextPayload text False)]) \<and>
     (\<forall>a b. raw = a @ ''{{telefono}}'' @ b \<and> \<not> occurs ''{{telefono}}'' (a @ ''{{telefono}'') \<longrightarrow>
        step1 = a @ digits @ b \<and>
        (occurs ''{{telefono}}'' b \<longrightarrow> occurs ''{{telefono}}'' text)) \<and>
     (\<not> occurs ''{{telefono}}'' raw \<longrightarrow> step1 = raw) \<and>
     (\<forall>c d. step1 = c @ ''{{nombre}}'' @ d \<and> \<not> occurs ''{{nombre}}'' (c @ ''{{nombre}'') \<longrightarrow>
        step2 = c @ name @ d \<and>
        (occurs ''{{nombre}}'' d \<longrightarrow> occurs ''{{nombre}}'' text)) \<and>
     (\<not> occurs ''{{nombre}}'' step1 \<longrightarrow> step2 = step1)"
proof (intro conjI allI impI)
  have "rendered_content Formulario e l m = text"
    by (simp add: rendered_content_def formulario_text_def assms(4) js_String_or_empty
        text_def step2_def step1_def name_def digits_def)
  then show "sends (fst (enviarMensaje e (Some l) m)) =
       (if text = [] then [] else [(lead_jid e (Some l), TextPayload text False)])"
    by (simp add: sends_dispatch [OF assms(1,2)] assms(3))
next
  fix a b
  assume h: "raw = a @ ''{{telefono}}'' @ b \<and> \<not> occurs ''{{telefono}}'' (a @ ''{{telefono}'')"
  then have "\<not> occurs ''{{telefono}}'' (a @ butlast ''{{telefono}}'')" by simp
  then have "replace_first ''{{telefono}}'' digits (a @ ''{{telefono}}'' @ b) = a @ digits @ b"
    by (intro replace_first_at_first) simp_all
  with h show s1: "step1 = a @ digits @ b" by (simp add: step1_def)
  assume "occurs ''{{telefono}}'' b"
  then have "occurs ''{{telefono}}'' step1"
    unfolding s1 by (intro occurs_suffix)
  then have "occurs ''{{telefono}}'' step2"
    unfolding step2_def by (rule occurs_telefono_replace_nombre)
  then have "occurs ''{{telefono}}'' (replace_newlines step2)"
    by (rule occurs_replace_newlines) (rule telefono_plain)+
  then show "occurs ''{{telefono}}'' text"
    unfolding text_def by (rule occurs_trim) (rule telefono_plain)+
next
  assume "\<not> occurs ''{{telefono}}'' raw"
  then show "step1 = raw" by (simp add: step1_def replace_first_absent)
next
  fix c d
  assume h: "step1 = c @ ''{{nombre}}'' @ d \<and> \<not> occurs ''{{nombre}}'' (c @ ''{{nombre}'')"
  then have "\<not> occurs ''{{nombre}}'' (c @ butlast ''{{nombre}}'')" by simp
  then have "replace_first ''{{nombre}}'' name (c @ ''{{nombre}}'' @ d) = c @ name @ d"
    by (intro replace_first_at_first) simp_all
  with h show s2: "step2 = c @ name @ d" by (simp add: step2_def)
  assume "occurs ''{{nombre}}'' d"
  then have "occurs ''{{nombre}}'' step2"
    unfolding s2 by (intro occurs_suffix)
  then have "occurs ''{{nombre}}'' (replace_newlines step2)"
    by (rule occurs_replace_newlines) (rule nombre_plain)+
  then show "occurs ''{{nombre}}'' text"
    unfolding text_def by (rule occurs_trim) (rule nombre_plain)+
next
  assume "\<not> occurs ''{{nombre}}'' step1"
  then show "step2 = step1" by (simp add: step2_def replace_first_absent)
qed

text \<open>
  A form with each placeholder twice: the second occurrences are sent as they
  are written.
\<close>

theorem formulario_first_occurrence_only_witness:
  "sends (fst (enviarMensaje open_env (Some juan) (Some formulario_msg))) =
     [(''5215512345678@s.whatsapp.net'',
       TextPayload ''525512345678 / {{telefono}} Juan%20Perez / {{nombre}}'' False)]"
proof -
  have h: "channel_handle open_env = Some (\<lambda>jid p. None)"
    by (simp add: channel_handle_def open_env_def)
  have p: "lead_phone open_env (Some juan) \<noteq> []" by code_simp
  have k: "message_kind (Some formulario_msg) = Some Formulario" by code_simp
  have t: "message_template (Some formulario_msg) =
      JStr (''{{telefono}} / {{telefono}}'' @ [CHR 0x0A] @ ''{{nombre}} / {{nombre}} '')"
    by code_simp
  have v: "trim (replace_newlines
             (replace_first ''{{nombre}}''
               (encodeURIComponent (js_String (js_or (juan ''nombre'') (JStr ''''))))
               (replace_first ''{{telefono}}'' (strip_non_digits (lead_phone open_env (Some juan)))
                 (''{{telefono}} / {{telefono}}'' @ [CHR 0x0A] @ ''{{nombre}} / {{nombre}} ''))))
           = ''525512345678 / {{telefono}} Juan%20Perez / {{nombre}}''"
    by code_simp
  have j: "lead_jid open_env (Some juan) = ''5215512345678@s.whatsapp.net''" by code_simp
  from formulario_first_occurrence_only [OF h p k t] show ?thesis
    unfolding v j by simp
qed

section \<open>Template renderer: substitution\<close>

text \<open>The scan on literal text and on a placeholder, and the callback.\<close>

lemma match_placeholder_none: "\<not> startsWith s ''{{'' \<Longrightarrow> match_placeholder s = None"
  by (simp add: match_placeholder_def)






















lemma first_token_empty [simp]: "first_token [] = []"
  by (simp add: first_token_def)


lemma dispatcher_names_own:
  "\<not> inherited_name ''telefono''" "\<not> inherited_name ''phone''"
  "\<not> inherited_name ''whatsapp''" "\<not> inherited_name ''nombre''"
  by (simp_all add: inherited_name_def object_prototype_def)


lemma placeholder_callback_inherited:
  assumes "map_of object_prototype w = Some text" and "l w = JUndefined"
  shows "placeholder_callback (Some l) w = text \<and> text \<noteq> [] \<and> attribute_text (Some l) w = []"
proof -
  from assms(1) have "(w, text) \<in> set object_prototype" by (rule map_of_SomeD)
  then have "w \<noteq> ''nombre'' \<and> text \<noteq> []"
    by (auto simp: object_prototype_def)
  with assms show ?thesis
    by (simp add: placeholder_callback_def lead_get_def attribute_text_def)
qed

text \<open>
  Where the attribute is a string or \<^verbatim>\<open>true\<close>, or the lead has none, what the renderer shows
  is the attribute as text.
\<close>

lemma shown_attribute_text:
  assumes "l name \<noteq> JNull" and "l name \<noteq> JBool False"
  shows "shown_attribute (Some l) name = attribute_text (Some l) name"
  using assms by (cases "l name") (auto simp: shown_attribute_def attribute_text_def)





end
